theory Spec2Isabelle
  imports
    Main
    "HOL-Library.Word"
    "HOL-Library.Char_ord"
    "HOL-Library.List_Lexorder"
    "HOL-Library.Multiset"
begin

section \<open>Lockplane: lowering PostgreSQL DDL and checking it\<close>

text \<open>
  A shallow embedding of \<^verbatim>\<open>internal/schema/parser.go\<close>, \<^verbatim>\<open>loader.go\<close> and
  \<^verbatim>\<open>checker.go\<close>. Go strings are byte sequences and are modelled as \<^typ>\<open>string\<close>
  (a list of 8-bit characters). Go's \<^verbatim>\<open>int\<close> values are lines, columns and counts and are
  modelled as \<^typ>\<open>int\<close>: the program only increments them, at most once for each byte of a
  source text or each element of a list, and where a number is read from a text the
  bound of the 64-bit range is written out (\<open>Atoi\<close>). The \<^verbatim>\<open>int32\<close> values delivered by
  the SQL parser are \<^typ>\<open>32 word\<close>, read as two's complement by \<^const>\<open>sint\<close>.
  Errors are values: a Go \<^verbatim>\<open>error\<close> is the text its \<^verbatim>\<open>Error()\<close> method returns, and a function
  returning \<^verbatim>\<open>(T, error)\<close> returns \<^typ>\<open>string + 'a\<close> with \<^const>\<open>Inl\<close> the error.
\<close>

subsection \<open>Formatting and string helpers of the Go library\<close>

text \<open>The byte values used below.\<close>

abbreviation newline :: char where "newline \<equiv> CHR 0x0A"
abbreviation squote :: char where "squote \<equiv> CHR 0x27"

text \<open>\<^verbatim>\<open>fmt.Sprintf("%d", n)\<close>: the decimal digits of a signed integer.\<close>

definition digit_char :: "nat \<Rightarrow> char" where
  "digit_char d = char_of (48 + d)"

function show_nat :: "nat \<Rightarrow> string" where
  "show_nat n = (if n < 10 then [digit_char n] else show_nat (n div 10) @ [digit_char (n mod 10)])"
  by pat_completeness auto
termination
  by (relation "measure id") auto

declare show_nat.simps [simp del]

definition show_int :: "int \<Rightarrow> string" where
  "show_int i = (if i < 0 then CHR ''-'' # show_nat (nat (- i)) else show_nat (nat i))"

text \<open>\<^verbatim>\<open>fmt.Sprintf("%t", b)\<close>.\<close>

definition show_bool :: "bool \<Rightarrow> string" where
  "show_bool b = (if b then ''true'' else ''false'')"

text \<open>\<^verbatim>\<open>strings.Join(parts, sep)\<close>.\<close>

fun Join :: "string list \<Rightarrow> string \<Rightarrow> string" where
  "Join [] sep = []"
| "Join [p] sep = p"
| "Join (p # q # ps) sep = p @ sep @ Join (q # ps) sep"

text \<open>
  \<^verbatim>\<open>strings.ToLower\<close> on ASCII text: the letters \<^verbatim>\<open>A\<close> to \<^verbatim>\<open>Z\<close> are mapped to \<^verbatim>\<open>a\<close> to
  \<^verbatim>\<open>z\<close>, every other byte is kept. (Go also folds upper-case letters beyond ASCII; type
  names and file suffixes of this program are ASCII.)
\<close>

definition lower_char :: "char \<Rightarrow> char" where
  "lower_char c = (if CHR ''A'' \<le> c \<and> c \<le> CHR ''Z'' then char_of (of_char c + (32::nat)) else c)"

definition ToLower :: "string \<Rightarrow> string" where
  "ToLower s = map lower_char s"

text \<open>\<^verbatim>\<open>strings.HasSuffix(s, suffix)\<close>.\<close>

definition HasSuffix :: "string \<Rightarrow> string \<Rightarrow> bool" where
  "HasSuffix s suffix = (length suffix \<le> length s \<and> drop (length s - length suffix) s = suffix)"

subsection \<open>The domain model (package database)\<close>

text \<open>
  The structs \<^verbatim>\<open>SourceLocation\<close>, \<^verbatim>\<open>Column\<close>, \<^verbatim>\<open>Table\<close> and \<^verbatim>\<open>Schema\<close>, with the fields the
  schema package reads and writes (\<^verbatim>\<open>Column.Name\<close> is \<open>ColName\<close> here, since \<^verbatim>\<open>Table.Name\<close> is
  \<open>Name\<close>). A nil pointer (\<^verbatim>\<open>*SourceLocation\<close>, \<^verbatim>\<open>*string\<close>) is \<^const>\<open>None\<close>.
\<close>

record SourceLocation =
  File :: string
  Line :: int
  Column :: int

record Column =
  ColName :: string
  Type :: string
  Nullable :: bool
  IsPrimaryKey :: bool
  Default :: "string option"

record Table =
  Name :: string
  Schema :: string
  Columns :: "Column list"
  RLSEnabled :: bool
  SourceLocation :: "SourceLocation option"

datatype Dialect = DialectPostgres | Dialect_other string

record Schema =
  Tables :: "Table list"
  Dialect :: Dialect

subsection \<open>The Position Resolver\<close>

text \<open>
  The loop of \<^verbatim>\<open>byteOffsetToLineColumn\<close> over the bytes \<^verbatim>\<open>sql[0 .. offset)\<close>, carrying
  \<^verbatim>\<open>line\<close> and \<^verbatim>\<open>column\<close>.
\<close>

fun lineColumnLoop :: "string \<Rightarrow> int \<Rightarrow> int \<Rightarrow> int \<times> int" where
  "lineColumnLoop [] line column = (line, column)"
| "lineColumnLoop (c # cs) line column =
     (if c = newline then lineColumnLoop cs (line + 1) 1
      else lineColumnLoop cs line (column + 1))"

definition byteOffsetToLineColumn :: "string \<Rightarrow> 32 word \<Rightarrow> int \<times> int" where
  "byteOffsetToLineColumn sql offset =
     (if sint offset < 0 \<or> sint offset > int (length sql) then (1, 1)
      else lineColumnLoop (take (nat (sint offset)) sql) 1 1)"

subsection \<open>The syntax tree delivered by the SQL parser (package pg_query)\<close>

text \<open>
  The parser is an external library; its tree is the input of this program. A \<^verbatim>\<open>*Node\<close>
  that may be nil is a \<open>Node option\<close>; the tagged union \<^verbatim>\<open>Node.Node\<close> is the datatype
  \<open>Node\<close>, with \<open>Node_unset\<close> for a union that is not set and \<open>Node_other k\<close> for every
  node kind \<open>k\<close> this program has no case for (\<open>Node_String\<close> is Go's \<^verbatim>\<open>Node_String_\<close>).
  Only the fields the program reads are kept.
  The elements of a repeated field and the struct inside a union member are never nil in
  a tree built by the parser, and are not optional here.
\<close>

datatype ConstrType =
  CONSTR_NULL | CONSTR_NOTNULL | CONSTR_DEFAULT | CONSTR_PRIMARY | CONSTR_other

datatype AlterTableType =
  AT_EnableRowSecurity | AT_DisableRowSecurity | AT_other

datatype A_Const_Val =
    A_Const_Ival "32 word"
  | A_Const_Fval string
  | A_Const_Boolval bool
  | A_Const_Sval string
  | A_Const_Bsval string

record A_Const =
  Val :: "A_Const_Val option"
  Isnull :: bool

record RangeVar =
  Schemaname :: string
  Relname :: string

datatype Node =
    Node_unset
  | Node_String string
  | Node_AConst A_Const
  | Node_FuncCall "Node list" "Node list"
  | Node_TypeCast "Node option"
  | Node_SqlvalueFunction int
  | Node_ColumnDef string "TypeName option" "Node list"
  | Node_Constraint ConstrType "Node option"
  | Node_AlterTableCmd AlterTableType
  | Node_CreateStmt "RangeVar option" "Node list"
  | Node_AlterTableStmt "RangeVar option" "Node list"
  | Node_other string
and TypeName =
    TypeName "Node list" "Node list" "Node list"

text \<open>
  The arguments are: \<open>Node_FuncCall Funcname Args\<close>, \<open>Node_TypeCast Arg\<close>,
  \<open>Node_SqlvalueFunction Op\<close>, \<open>Node_ColumnDef Colname TypeName Constraints\<close>,
  \<open>Node_Constraint Contype RawExpr\<close>, \<open>Node_AlterTableCmd Subtype\<close>,
  \<open>Node_CreateStmt Relation TableElts\<close>, \<open>Node_AlterTableStmt Relation Cmds\<close> and
  \<open>TypeName Names Typmods ArrayBounds\<close>.
\<close>

record RawStmt =
  Stmt :: "Node option"
  StmtLocation :: "32 word"

text \<open>The generated getters of \<^verbatim>\<open>A_Const\<close>: the member of the union, if it is the one asked for.\<close>

definition GetIval :: "A_Const \<Rightarrow> 32 word option" where
  "GetIval c = (case Val c of Some (A_Const_Ival i) \<Rightarrow> Some i | _ \<Rightarrow> None)"

definition GetFval :: "A_Const \<Rightarrow> string option" where
  "GetFval c = (case Val c of Some (A_Const_Fval f) \<Rightarrow> Some f | _ \<Rightarrow> None)"

definition GetSval :: "A_Const \<Rightarrow> string option" where
  "GetSval c = (case Val c of Some (A_Const_Sval s) \<Rightarrow> Some s | _ \<Rightarrow> None)"

definition GetBsval :: "A_Const \<Rightarrow> string option" where
  "GetBsval c = (case Val c of Some (A_Const_Bsval b) \<Rightarrow> Some b | _ \<Rightarrow> None)"

definition GetBoolval :: "A_Const \<Rightarrow> bool option" where
  "GetBoolval c = (case Val c of Some (A_Const_Boolval b) \<Rightarrow> Some b | _ \<Rightarrow> None)"

subsection \<open>The Expression Formatter\<close>

definition UNDEFINED_EXPRESSION :: string where
  "UNDEFINED_EXPRESSION = ''UNDEFINED_EXPRESSION''"

text \<open>The inner \<^verbatim>\<open>switch\<close> of \<^verbatim>\<open>formatExpr\<close> on the operation code of a value function.\<close>

definition formatSqlvalueFunction :: "int \<Rightarrow> string" where
  "formatSqlvalueFunction op =
     (if op = 1 then ''CURRENT_DATE''
      else if op = 2 then ''CURRENT_TIME''
      else if op = 3 then ''CURRENT_TIME''
      else if op = 4 then ''CURRENT_TIMESTAMP''
      else if op = 5 then ''CURRENT_TIMESTAMP''
      else if op = 6 then ''LOCALTIME''
      else if op = 7 then ''LOCALTIME''
      else if op = 8 then ''LOCALTIMESTAMP''
      else if op = 9 then ''LOCALTIMESTAMP''
      else if op = 10 then ''CURRENT_ROLE''
      else if op = 11 then ''CURRENT_USER''
      else if op = 12 then ''USER''
      else if op = 13 then ''SESSION_USER''
      else if op = 14 then ''CURRENT_CATALOG''
      else if op = 15 then ''CURRENT_SCHEMA''
      else UNDEFINED_EXPRESSION)"

text \<open>The case of \<^verbatim>\<open>formatExpr\<close> for a constant: the checks in the order of the source.\<close>

definition formatAConst :: "A_Const \<Rightarrow> string" where
  "formatAConst c =
     (case GetIval c of Some ival \<Rightarrow> show_int (sint ival) | None \<Rightarrow>
      (case GetFval c of Some fval \<Rightarrow> fval | None \<Rightarrow>
       (case GetSval c of Some sval \<Rightarrow> squote # sval @ [squote] | None \<Rightarrow>
        (case GetBsval c of Some bsval \<Rightarrow> bsval | None \<Rightarrow>
         (case GetBoolval c of Some boolval \<Rightarrow> show_bool boolval | None \<Rightarrow>
          (if Isnull c then ''NULL'' else UNDEFINED_EXPRESSION))))))"

fun formatExpr :: "Node option \<Rightarrow> string" where
  "formatExpr None = []"
| "formatExpr (Some (Node_AConst c)) = formatAConst c"
| "formatExpr (Some (Node_FuncCall funcname args)) =
     (case funcname of
        Node_String funcName # _ \<Rightarrow>
          (let args' = map (\<lambda>argNode. formatExpr (Some argNode)) args
           in if length args' > 0 then funcName @ ''('' @ Join args' '', '' @ '')''
              else funcName @ ''()'')
      | _ \<Rightarrow> UNDEFINED_EXPRESSION)"
| "formatExpr (Some (Node_TypeCast arg)) =
     (case arg of Some a \<Rightarrow> formatExpr (Some a) | None \<Rightarrow> UNDEFINED_EXPRESSION)"
| "formatExpr (Some (Node_SqlvalueFunction op)) = formatSqlvalueFunction op"
| "formatExpr (Some _) = UNDEFINED_EXPRESSION"

subsection \<open>The Type Normalizer and type rendering\<close>

definition typeMap :: "(string \<times> string) list" where
  "typeMap =
    [(''int2'', ''smallint''),
     (''int4'', ''integer''),
     (''int8'', ''bigint''),
     (''serial'', ''serial''),
     (''serial2'', ''smallserial''),
     (''serial4'', ''serial''),
     (''serial8'', ''bigserial''),
     (''bool'', ''boolean''),
     (''varchar'', ''varchar''),
     (''bpchar'', ''char''),
     (''float4'', ''real''),
     (''float8'', ''double precision''),
     (''timestamp'', ''timestamp without time zone''),
     (''timestamptz'', ''timestamp with time zone''),
     (''time'', ''time without time zone''),
     (''timetz'', ''time with time zone''),
     (''text'', ''text''),
     (''numeric'', ''numeric''),
     (''decimal'', ''decimal'')]"

definition normalizePostgreSQLType :: "string \<Rightarrow> string" where
  "normalizePostgreSQLType pgType =
     (case map_of typeMap (ToLower pgType) of
        Some normalized \<Rightarrow> normalized
      | None \<Rightarrow> pgType)"

text \<open>The two collecting loops of \<^verbatim>\<open>formatTypeName\<close>: the string nodes of \<^verbatim>\<open>Names\<close>, and the
  integer constants of \<^verbatim>\<open>Typmods\<close> printed in decimal.\<close>

fun collectParts :: "Node list \<Rightarrow> string list" where
  "collectParts [] = []"
| "collectParts (Node_String sval # names) = sval # collectParts names"
| "collectParts (_ # names) = collectParts names"

fun collectMods :: "Node list \<Rightarrow> string list" where
  "collectMods [] = []"
| "collectMods (Node_AConst c # typmods) =
     (case GetIval c of
        Some ival \<Rightarrow> show_int (sint ival) # collectMods typmods
      | None \<Rightarrow> collectMods typmods)"
| "collectMods (_ # typmods) = collectMods typmods"

fun formatTypeName :: "TypeName \<Rightarrow> string" where
  "formatTypeName (TypeName names typmods arrayBounds) =
     (if length names = 0 then []
      else
        let parts = collectParts names;
            rawBase = Join parts ''.'';
            typeStr = (if length parts > 1 \<and> parts ! 0 = ''pg_catalog''
                       then parts ! (length parts - 1) else rawBase);
            typeStr = normalizePostgreSQLType typeStr;
            typeStr = (if length typmods > 0
                       then (let mods = collectMods typmods
                             in if length mods > 0
                                then typeStr @ ''('' @ Join mods '','' @ '')''
                                else typeStr)
                       else typeStr);
            typeStr = (if length arrayBounds > 0 then typeStr @ ''[]'' else typeStr)
        in typeStr)"


subsection \<open>The Statement Lowerer\<close>

definition parseColumnConstraint :: "Column \<Rightarrow> ConstrType \<Rightarrow> Node option \<Rightarrow> Column" where
  "parseColumnConstraint col contype rawExpr =
     (case contype of
        CONSTR_NOTNULL \<Rightarrow> col\<lparr>Nullable := False\<rparr>
      | CONSTR_NULL \<Rightarrow> col\<lparr>Nullable := True\<rparr>
      | CONSTR_DEFAULT \<Rightarrow>
          (case rawExpr of
             Some e \<Rightarrow> col\<lparr>Default := Some (formatExpr (Some e))\<rparr>
           | None \<Rightarrow> col)
      | CONSTR_PRIMARY \<Rightarrow> col\<lparr>IsPrimaryKey := True, Nullable := False\<rparr>
      | CONSTR_other \<Rightarrow> col)"

text \<open>The loop of \<^verbatim>\<open>parseColumnDef\<close> over the constraints, in the order of the source text.\<close>

fun applyConstraints :: "Column \<Rightarrow> Node list \<Rightarrow> Column" where
  "applyConstraints col [] = col"
| "applyConstraints col (Node_Constraint contype rawExpr # constraints) =
     applyConstraints (parseColumnConstraint col contype rawExpr) constraints"
| "applyConstraints col (_ # constraints) = applyConstraints col constraints"

definition parseColumnDef :: "string \<Rightarrow> TypeName option \<Rightarrow> Node list \<Rightarrow> string + Column" where
  "parseColumnDef colname typeName constraints =
     (if colname = [] then Inl ''column missing name''
      else
        let col = \<lparr>ColName = colname, Type = [], Nullable = True, IsPrimaryKey = False,
                   Default = None\<rparr>;
            col = (case typeName of
                     Some tn \<Rightarrow> col\<lparr>Type := formatTypeName tn\<rparr>
                   | None \<Rightarrow> col)
        in Inr (applyConstraints col constraints))"

record parseContext =
  ctx_sql :: string
  ctx_filename :: string

text \<open>The loop of \<^verbatim>\<open>parseCreateTable\<close> over the table elements, appending to \<^verbatim>\<open>table.Columns\<close>.\<close>

fun parseTableElts :: "Column list \<Rightarrow> Node list \<Rightarrow> string + Column list" where
  "parseTableElts cols [] = Inr cols"
| "parseTableElts cols (Node_ColumnDef colname typeName constraints # elts) =
     (case parseColumnDef colname typeName constraints of
        Inl err \<Rightarrow> Inl err
      | Inr col \<Rightarrow> parseTableElts (cols @ [col]) elts)"
| "parseTableElts cols (_ # elts) = parseTableElts cols elts"

definition parseCreateTable ::
  "RangeVar option \<Rightarrow> Node list \<Rightarrow> parseContext \<Rightarrow> 32 word \<Rightarrow> string + Table" where
  "parseCreateTable relation tableElts ctx stmtLocation =
     (case relation of
        None \<Rightarrow> Inl ''CREATE TABLE missing relation''
      | Some rel \<Rightarrow>
          (let (line, column) = byteOffsetToLineColumn (ctx_sql ctx) stmtLocation
           in case parseTableElts [] tableElts of
                Inl err \<Rightarrow> Inl err
              | Inr cols \<Rightarrow>
                  Inr \<lparr>Name = Relname rel, Schema = Schemaname rel, Columns = cols,
                       RLSEnabled = False,
                       SourceLocation =
                         Some \<lparr>File = ctx_filename ctx, Line = line, Column = column\<rparr>\<rparr>))"

text \<open>
  The search loop of \<^verbatim>\<open>parseAlterTable\<close>: the index of the first table whose name and
  effective schema are the target's. \<^const>\<open>None\<close> is the source's \<^verbatim>\<open>tableIndex == -1\<close>.
\<close>

fun findTable :: "Table list \<Rightarrow> string \<Rightarrow> string \<Rightarrow> nat \<Rightarrow> nat option" where
  "findTable [] tableName tableSchema i = None"
| "findTable (table # tables) tableName tableSchema i =
     (let tblSchema = (if Schema table = [] then ''public'' else Schema table)
      in if Name table = tableName \<and> tblSchema = tableSchema then Some i
         else findTable tables tableName tableSchema (Suc i))"

text \<open>The loop of \<^verbatim>\<open>parseAlterTable\<close> over the sub-commands, writing \<^verbatim>\<open>schema.Tables[tableIndex]\<close>.\<close>

definition setRLS :: "Schema \<Rightarrow> nat \<Rightarrow> bool \<Rightarrow> Schema" where
  "setRLS schema tableIndex b =
     schema\<lparr>Tables := (Tables schema)[tableIndex := (Tables schema ! tableIndex)\<lparr>RLSEnabled := b\<rparr>]\<rparr>"

fun applyCmds :: "Schema \<Rightarrow> nat \<Rightarrow> Node list \<Rightarrow> Schema" where
  "applyCmds schema tableIndex [] = schema"
| "applyCmds schema tableIndex (Node_AlterTableCmd subtype # cmds) =
     (case subtype of
        AT_EnableRowSecurity \<Rightarrow> applyCmds (setRLS schema tableIndex True) tableIndex cmds
      | AT_DisableRowSecurity \<Rightarrow> applyCmds (setRLS schema tableIndex False) tableIndex cmds
      | AT_other \<Rightarrow> applyCmds schema tableIndex cmds)"
| "applyCmds schema tableIndex (_ # cmds) = applyCmds schema tableIndex cmds"

definition parseAlterTable :: "Schema \<Rightarrow> RangeVar option \<Rightarrow> Node list \<Rightarrow> string + Schema" where
  "parseAlterTable schema relation cmds =
     (case relation of
        None \<Rightarrow> Inl ''ALTER TABLE missing relation''
      | Some rel \<Rightarrow>
          (let tableName = Relname rel;
               tableSchema = (if Schemaname rel = [] then ''public'' else Schemaname rel)
           in case findTable (Tables schema) tableName tableSchema 0 of
                None \<Rightarrow> Inr schema
              | Some tableIndex \<Rightarrow> Inr (applyCmds schema tableIndex cmds)))"

text \<open>
  The walk of \<^verbatim>\<open>parsePostgresSQLSchemaWithFilename\<close> over the statements. The parser
  \<^verbatim>\<open>pg_query.Parse\<close> is a parameter: it maps the SQL text to an error or to the statements.
\<close>

fun walkStmts :: "parseContext \<Rightarrow> Schema \<Rightarrow> RawStmt list \<Rightarrow> string + Schema" where
  "walkStmts ctx schema [] = Inr schema"
| "walkStmts ctx schema (stmt # stmts) =
     (case Stmt stmt of
        None \<Rightarrow> walkStmts ctx schema stmts
      | Some (Node_CreateStmt relation tableElts) \<Rightarrow>
          (case parseCreateTable relation tableElts ctx (StmtLocation stmt) of
             Inl err \<Rightarrow> Inl (''failed to parse CREATE TABLE: '' @ err)
           | Inr table \<Rightarrow> walkStmts ctx (schema\<lparr>Tables := Tables schema @ [table]\<rparr>) stmts)
      | Some (Node_AlterTableStmt relation cmds) \<Rightarrow>
          (case parseAlterTable schema relation cmds of
             Inl err \<Rightarrow> Inl (''failed to parse ALTER TABLE: '' @ err)
           | Inr schema' \<Rightarrow> walkStmts ctx schema' stmts)
      | Some _ \<Rightarrow> walkStmts ctx schema stmts)"

definition parsePostgresSQLSchemaWithFilename ::
  "(string \<Rightarrow> string + RawStmt list) \<Rightarrow> string \<Rightarrow> string \<Rightarrow> string + Schema" where
  "parsePostgresSQLSchemaWithFilename Parse sql filename =
     (case Parse sql of
        Inl err \<Rightarrow> Inl (''failed to parse SQL: '' @ err)
      | Inr stmts \<Rightarrow>
          walkStmts \<lparr>ctx_sql = sql, ctx_filename = filename\<rparr>
            \<lparr>Tables = [], Dialect = DialectPostgres\<rparr> stmts)"

definition ParseSQLSchemaWithDialectAndFilename ::
  "(string \<Rightarrow> string + RawStmt list) \<Rightarrow> string \<Rightarrow> Dialect \<Rightarrow> string \<Rightarrow> string + Schema" where
  "ParseSQLSchemaWithDialectAndFilename Parse sql dialect filename =
     (case dialect of
        DialectPostgres \<Rightarrow> parsePostgresSQLSchemaWithFilename Parse sql filename
      | Dialect_other v \<Rightarrow> Inl (''unsupported dialect '' @ v))"

subsection \<open>The Duplicate Validator\<close>

text \<open>
  The struct \<^verbatim>\<open>Diagnostic\<close> of the checker (its \<^verbatim>\<open>File\<close>, \<^verbatim>\<open>Line\<close> and \<^verbatim>\<open>Column\<close> are \<open>DFile\<close>,
  \<open>DLine\<close> and \<open>DColumn\<close> here, the plain names being the fields of \<^verbatim>\<open>SourceLocation\<close>).
\<close>

record Diagnostic =
  Code :: string
  Message :: string
  Severity :: string
  DFile :: string
  DLine :: int
  DColumn :: int

record tableInfo =
  firstIndex :: nat
  indices :: "nat list"

text \<open>
  The Go map \<^verbatim>\<open>seen\<close> from keys to \<^verbatim>\<open>*tableInfo\<close> is an association list with distinct
  keys, kept in the order of insertion. A \<^verbatim>\<open>range\<close> over a Go map visits every entry once,
  in an order the runtime chooses: the validators take that choice as a parameter
  \<open>order\<close>, which rearranges the entries before the loop runs over them.
  \<^verbatim>\<open>fmt\<close>'s verb \<^verbatim>\<open>%q\<close> (a double-quoted, escaped Go string literal) is the parameter \<open>quote\<close>.
\<close>

type_synonym seen_map = "(string \<times> tableInfo) list"


text \<open>The first loop of \<^verbatim>\<open>ValidateDuplicateTablesAsDiagnostics\<close> (lines 126 to 146), from index \<open>i\<close>.\<close>

fun diagnosticsSeen :: "seen_map \<Rightarrow> nat \<Rightarrow> Table list \<Rightarrow> seen_map" where
  "diagnosticsSeen seen i [] = seen"
| "diagnosticsSeen seen i (table # tables) =
     (let tableSchema = (if Schema table = [] then ''public'' else Schema table);
          key = tableSchema @ ''.'' @ Name table
      in diagnosticsSeen
           (case map_of seen key of
              Some info \<Rightarrow>
                map (\<lambda>(k, v). if k = key then (k, v\<lparr>indices := indices v @ [i]\<rparr>) else (k, v)) seen
            | None \<Rightarrow> seen @ [(key, \<lparr>firstIndex = i, indices = [i]\<rparr>)])
           (Suc i) tables)"

text \<open>The loop over \<^verbatim>\<open>info.indices\<close> that builds one diagnostic per occurrence; \<open>i\<close> is the position.\<close>

fun occurrenceDiagnostics ::
  "(string \<Rightarrow> string) \<Rightarrow> Schema \<Rightarrow> string \<Rightarrow> nat \<Rightarrow> nat list \<Rightarrow> Diagnostic list" where
  "occurrenceDiagnostics quote schema key i [] = []"
| "occurrenceDiagnostics quote schema key i (idx # idxs) =
     (let table = Tables schema ! idx;
          message = (if i = 0
                     then ''Table '' @ quote key @ '' is defined multiple times (first occurrence)''
                     else ''Table '' @ quote key @ '' is already defined (duplicate definition)'');
          diagnostic = \<lparr>Code = [], Message = message, Severity = ''error'',
                         DFile = [], DLine = 1, DColumn = 1\<rparr>;
          diagnostic = (case SourceLocation table of
                          Some loc \<Rightarrow>
                            diagnostic\<lparr>DFile := (if File loc \<noteq> [] then File loc
                                                 else DFile diagnostic),
                                       DLine := Line loc, DColumn := Column loc\<rparr>
                        | None \<Rightarrow> diagnostic)
      in diagnostic # occurrenceDiagnostics quote schema key (Suc i) idxs)"

text \<open>The entries the second loop acts on: those it visits whose \<^verbatim>\<open>len(info.indices) > 1\<close>.\<close>

definition diagnosticsFlagged :: "(seen_map \<Rightarrow> seen_map) \<Rightarrow> Schema \<Rightarrow> seen_map" where
  "diagnosticsFlagged order schema =
     filter (\<lambda>(key, info). length (indices info) > 1)
       (order (diagnosticsSeen [] 0 (Tables schema)))"

definition ValidateDuplicateTablesAsDiagnostics ::
  "(string \<Rightarrow> string) \<Rightarrow> (seen_map \<Rightarrow> seen_map) \<Rightarrow> Schema \<Rightarrow> Diagnostic list" where
  "ValidateDuplicateTablesAsDiagnostics quote order schema =
     concat (map (\<lambda>(key, info). occurrenceDiagnostics quote schema key 0 (indices info))
               (diagnosticsFlagged order schema))"

text \<open>The first loop of \<^verbatim>\<open>validateNoDuplicateTables\<close> (lines 202 to 222), from index \<open>i\<close>.\<close>

fun hardFailSeen :: "seen_map \<Rightarrow> nat \<Rightarrow> Table list \<Rightarrow> seen_map" where
  "hardFailSeen seen i [] = seen"
| "hardFailSeen seen i (table # tables) =
     (let tableSchema = (if Schema table = [] then ''public'' else Schema table);
          key = tableSchema @ ''.'' @ Name table
      in hardFailSeen
           (case map_of seen key of
              Some info \<Rightarrow>
                map (\<lambda>(k, v). if k = key then (k, v\<lparr>indices := indices v @ [i]\<rparr>) else (k, v)) seen
            | None \<Rightarrow> seen @ [(key, \<lparr>firstIndex = i, indices = [i]\<rparr>)])
           (Suc i) tables)"

text \<open>The loop over \<^verbatim>\<open>info.indices\<close> that collects the locations of the occurrences.\<close>

fun occurrenceLocations :: "Schema \<Rightarrow> nat list \<Rightarrow> string list" where
  "occurrenceLocations schema [] = []"
| "occurrenceLocations schema (idx # idxs) =
     (let table = Tables schema ! idx
      in (case SourceLocation table of
            Some loc \<Rightarrow>
              (if File loc \<noteq> []
               then [File loc @ '':'' @ show_int (Line loc) @ '':'' @ show_int (Column loc)]
               else [''line '' @ show_int (Line loc)])
          | None \<Rightarrow> [])
         @ occurrenceLocations schema idxs)"

definition duplicateMessage :: "(string \<Rightarrow> string) \<Rightarrow> Schema \<Rightarrow> string \<Rightarrow> tableInfo \<Rightarrow> string" where
  "duplicateMessage quote schema key info =
     (let locations = occurrenceLocations schema (indices info)
      in if length locations > 0
         then ''table '' @ quote key @ '' is defined multiple times at: '' @ Join locations '', ''
         else ''table '' @ quote key @ '' is defined multiple times'')"

definition hardFailFlagged :: "(seen_map \<Rightarrow> seen_map) \<Rightarrow> Schema \<Rightarrow> seen_map" where
  "hardFailFlagged order schema =
     filter (\<lambda>(key, info). length (indices info) > 1)
       (order (hardFailSeen [] 0 (Tables schema)))"

text \<open>The result is the error, \<^const>\<open>None\<close> for \<^verbatim>\<open>nil\<close>.\<close>

definition validateNoDuplicateTables ::
  "(string \<Rightarrow> string) \<Rightarrow> (seen_map \<Rightarrow> seen_map) \<Rightarrow> Schema \<Rightarrow> string option" where
  "validateNoDuplicateTables quote order schema =
     (let errorMessages = map (\<lambda>(key, info). duplicateMessage quote schema key info)
                            (hardFailFlagged order schema)
      in if length errorMessages > 0 then Some (Join errorMessages ''; '') else None)"

subsection \<open>The report of the Check Pipeline\<close>

record Summary =
  Errors :: int
  Warnings :: int
  Valid :: bool

record CheckOutput =
  Diagnostics :: "Diagnostic list"
  Summary :: Summary

definition NewCheckOutput :: CheckOutput where
  "NewCheckOutput = \<lparr>Diagnostics = [], Summary = \<lparr>Errors = 0, Warnings = 0, Valid = True\<rparr>\<rparr>"

subsection \<open>The environment: operating system, parser and library functions\<close>

text \<open>
  What the program asks of its environment, as one record that every loading function
  takes. \<open>Stat\<close> is \<^verbatim>\<open>os.Stat\<close> (an error, or whether the path is a directory), \<open>ReadDir\<close> is
  \<^verbatim>\<open>os.ReadDir\<close> (an entry has a name, \<^verbatim>\<open>IsDir()\<close> and the symbolic-link bit of \<^verbatim>\<open>Type()\<close>),
  \<open>ReadFile\<close> is \<^verbatim>\<open>os.ReadFile\<close>, \<open>PathJoin\<close> is \<^verbatim>\<open>filepath.Join\<close>, \<open>Parse\<close> is
  \<^verbatim>\<open>pg_query.Parse\<close>, \<open>Quote\<close> is the verb \<^verbatim>\<open>%q\<close>, \<open>RangeOrder\<close> is the order in which a
  \<^verbatim>\<open>range\<close> visits a map, and \<open>MarshalIndent\<close> is \<^verbatim>\<open>json.MarshalIndent\<close> with the arguments
  of the source. The file system does not change during a call.
\<close>

record DirEntry =
  EntryName :: string
  EntryIsDir :: bool
  EntryIsSymlink :: bool

record Env =
  Stat :: "string \<Rightarrow> string + bool"
  ReadDir :: "string \<Rightarrow> string + DirEntry list"
  ReadFile :: "string \<Rightarrow> string + string"
  PathJoin :: "string \<Rightarrow> string \<Rightarrow> string"
  Parse :: "string \<Rightarrow> string + RawStmt list"
  Quote :: "string \<Rightarrow> string"
  RangeOrder :: "seen_map \<Rightarrow> seen_map"
  MarshalIndent :: "CheckOutput \<Rightarrow> string + string"

subsection \<open>The File/Directory Loader\<close>

definition loadSQLSchemaFromBytesWithFilename :: "Env \<Rightarrow> string \<Rightarrow> string \<Rightarrow> string + Schema" where
  "loadSQLSchemaFromBytesWithFilename env data filename =
     (case ParseSQLSchemaWithDialectAndFilename (Parse env) data DialectPostgres filename of
        Inl err \<Rightarrow> Inl (''failed to parse SQL DDL: '' @ err)
      | Inr schema \<Rightarrow>
          (case validateNoDuplicateTables (Quote env) (RangeOrder env) schema of
             Some err \<Rightarrow> Inl err
           | None \<Rightarrow> Inr schema))"

definition loadSQLSchema :: "Env \<Rightarrow> string \<Rightarrow> string + Schema" where
  "loadSQLSchema env path =
     (case ReadFile env path of
        Inl err \<Rightarrow> Inl (''failed to read SQL file: '' @ err)
      | Inr data \<Rightarrow> loadSQLSchemaFromBytesWithFilename env data path)"

text \<open>The loop of \<^verbatim>\<open>loadSchemaFromDir\<close> over the directory entries, collecting \<^verbatim>\<open>sqlFiles\<close>.\<close>

fun collectSqlFiles :: "Env \<Rightarrow> string \<Rightarrow> DirEntry list \<Rightarrow> string list" where
  "collectSqlFiles env dir [] = []"
| "collectSqlFiles env dir (entry # entries) =
     (if EntryIsDir entry then collectSqlFiles env dir entries
      else if EntryIsSymlink entry then collectSqlFiles env dir entries
      else
        let name = EntryName entry;
            lowerName = ToLower name
        in if HasSuffix lowerName ''.lp.sql''
           then PathJoin env dir name # collectSqlFiles env dir entries
           else collectSqlFiles env dir entries)"

text \<open>The loop of \<^verbatim>\<open>loadSchemaFromDir\<close> over the sorted files, appending to \<^verbatim>\<open>allTables\<close>.\<close>

fun loadTables :: "Env \<Rightarrow> Table list \<Rightarrow> string list \<Rightarrow> string + Table list" where
  "loadTables env allTables [] = Inr allTables"
| "loadTables env allTables (file # files) =
     (case ReadFile env file of
        Inl readErr \<Rightarrow> Inl (''failed to read SQL file '' @ file @ '': '' @ readErr)
      | Inr data \<Rightarrow>
          (case loadSQLSchemaFromBytesWithFilename env data file of
             Inl parseErr \<Rightarrow> Inl (''failed to parse SQL file '' @ file @ '': '' @ parseErr)
           | Inr schema \<Rightarrow> loadTables env (allTables @ Tables schema) files))"

text \<open>\<^verbatim>\<open>sort.Strings\<close> is \<^const>\<open>sort\<close> on the lexicographic order of byte strings.\<close>

definition loadSchemaFromDir :: "Env \<Rightarrow> string \<Rightarrow> string + Schema" where
  "loadSchemaFromDir env dir =
     (case ReadDir env dir of
        Inl err \<Rightarrow> Inl (''failed to read schema directory '' @ dir @ '': '' @ err)
      | Inr entries \<Rightarrow>
          (let sqlFiles = collectSqlFiles env dir entries
           in if length sqlFiles = 0
              then Inl (''no .lp.sql files found in directory '' @ dir)
              else
                (case loadTables env [] (sort sqlFiles) of
                   Inl err \<Rightarrow> Inl err
                 | Inr allTables \<Rightarrow>
                     (let combinedSchema = \<lparr>Tables = allTables, Dialect = DialectPostgres\<rparr>
                      in case validateNoDuplicateTables (Quote env) (RangeOrder env) combinedSchema of
                           Some err \<Rightarrow> Inl err
                         | None \<Rightarrow> Inr combinedSchema))))"

definition LoadSchema :: "Env \<Rightarrow> string \<Rightarrow> string + Schema" where
  "LoadSchema env path =
     (if (case Stat env path of Inr isDir \<Rightarrow> isDir | Inl err \<Rightarrow> False)
      then loadSchemaFromDir env path
      else if (case Stat env path of Inr isDir \<Rightarrow> True | Inl err \<Rightarrow> False)
              \<and> HasSuffix (ToLower path) ''.lp.sql''
      then loadSQLSchema env path
      else Inl ''did not find .lp.sql file(s)'')"

subsection \<open>The Check Pipeline\<close>

definition loadSQLSchemaWithoutValidation :: "Env \<Rightarrow> string \<Rightarrow> string + Schema" where
  "loadSQLSchemaWithoutValidation env path =
     (case ReadFile env path of
        Inl err \<Rightarrow> Inl (''failed to read SQL file: '' @ err)
      | Inr data \<Rightarrow>
          (case ParseSQLSchemaWithDialectAndFilename (Parse env) data DialectPostgres path of
             Inl err \<Rightarrow> Inl (''failed to parse SQL DDL: '' @ err)
           | Inr schema \<Rightarrow> Inr schema))"

fun loadTablesWithoutValidation :: "Env \<Rightarrow> Table list \<Rightarrow> string list \<Rightarrow> string + Table list" where
  "loadTablesWithoutValidation env allTables [] = Inr allTables"
| "loadTablesWithoutValidation env allTables (file # files) =
     (case ReadFile env file of
        Inl readErr \<Rightarrow> Inl (''failed to read SQL file '' @ file @ '': '' @ readErr)
      | Inr data \<Rightarrow>
          (case ParseSQLSchemaWithDialectAndFilename (Parse env) data DialectPostgres file of
             Inl parseErr \<Rightarrow> Inl (''failed to parse SQL file '' @ file @ '': '' @ parseErr)
           | Inr schema \<Rightarrow> loadTablesWithoutValidation env (allTables @ Tables schema) files))"

definition loadSchemaFromDirWithoutValidation :: "Env \<Rightarrow> string \<Rightarrow> string + Schema" where
  "loadSchemaFromDirWithoutValidation env dir =
     (case ReadDir env dir of
        Inl err \<Rightarrow> Inl (''failed to read schema directory '' @ dir @ '': '' @ err)
      | Inr entries \<Rightarrow>
          (let sqlFiles = collectSqlFiles env dir entries
           in if length sqlFiles = 0
              then Inl (''no .lp.sql files found in directory '' @ dir)
              else
                (case loadTablesWithoutValidation env [] (sort sqlFiles) of
                   Inl err \<Rightarrow> Inl err
                 | Inr allTables \<Rightarrow> Inr \<lparr>Tables = allTables, Dialect = DialectPostgres\<rparr>)))"

definition loadSchemaWithoutValidation :: "Env \<Rightarrow> string \<Rightarrow> string + Schema" where
  "loadSchemaWithoutValidation env path =
     (if (case Stat env path of Inr isDir \<Rightarrow> isDir | Inl err \<Rightarrow> False)
      then loadSchemaFromDirWithoutValidation env path
      else if (case Stat env path of Inr isDir \<Rightarrow> True | Inl err \<Rightarrow> False)
              \<and> HasSuffix (ToLower path) ''.lp.sql''
      then loadSQLSchemaWithoutValidation env path
      else Inl ''did not find .lp.sql file(s)'')"

text \<open>
  The two regular expressions of \<^verbatim>\<open>parseErrorToDiagnostic\<close> are sequences of items: a
  literal byte, or a capturing group of one or more bytes of a class, which is greedy.
  \<open>matchHere\<close> matches a sequence at the start of a text and returns the captured groups
  and the text after the match; a group tries the longest run first and then shorter
  ones, which is the match Go's \<^verbatim>\<open>regexp\<close> package chooses among those at one position.
\<close>

datatype re_item = Lit char | PlusGroup "char \<Rightarrow> bool"

fun matchHere :: "re_item list \<Rightarrow> string \<Rightarrow> (string list \<times> string) option" where
  "matchHere [] s = Some ([], s)"
| "matchHere (Lit c # items) s =
     (case s of [] \<Rightarrow> None | x # xs \<Rightarrow> if x = c then matchHere items xs else None)"
| "matchHere (PlusGroup cls # items) s =
     (case List.map_filter
             (\<lambda>n. case matchHere items (drop n s) of
                    None \<Rightarrow> None
                  | Some (groups, rest) \<Rightarrow> Some (take n s # groups, rest))
             (rev [1..<Suc (length (takeWhile cls s))]) of
        [] \<Rightarrow> None
      | r # _ \<Rightarrow> Some r)"

text \<open>
  \<^verbatim>\<open>FindStringSubmatch\<close>: the leftmost match, as the whole match followed by its groups;
  the empty list is the \<^verbatim>\<open>nil\<close> returned when nothing matches.
\<close>

fun FindStringSubmatch :: "re_item list \<Rightarrow> string \<Rightarrow> string list" where
  "FindStringSubmatch re s =
     (case matchHere re s of
        Some (groups, rest) \<Rightarrow> take (length s - length rest) s # groups
      | None \<Rightarrow> (case s of [] \<Rightarrow> [] | x # xs \<Rightarrow> FindStringSubmatch re xs))"

definition isDigit :: "char \<Rightarrow> bool" where
  "isDigit c = (CHR ''0'' \<le> c \<and> c \<le> CHR ''9'')"

text \<open>The pattern \<^verbatim>\<open>([^:]+):(\d+):(\d+)\<close>.\<close>

definition fileLocPattern :: "re_item list" where
  "fileLocPattern =
     [PlusGroup (\<lambda>c. c \<noteq> CHR '':''), Lit CHR '':'', PlusGroup isDigit, Lit CHR '':'',
      PlusGroup isDigit]"

text \<open>The pattern \<^verbatim>\<open>line (\d+)\<close>.\<close>

definition linePattern :: "re_item list" where
  "linePattern = map Lit ''line '' @ [PlusGroup isDigit]"

text \<open>
  \<^verbatim>\<open>strconv.Atoi\<close> on a string of decimal digits, which is all it is applied to: the number,
  or the largest \<^verbatim>\<open>int\<close> when the number is out of range (the source drops the error).
\<close>

definition Atoi :: "string \<Rightarrow> int" where
  "Atoi s = min (foldl (\<lambda>n c. 10 * n + (int (of_char c) - 48)) 0 s) (2 ^ 63 - 1)"

text \<open>\<^verbatim>\<open>strings.SplitN(s, sep, n)\<close> for a separator of one byte.\<close>

fun SplitN :: "string \<Rightarrow> char \<Rightarrow> nat \<Rightarrow> string list" where
  "SplitN s sep 0 = []"
| "SplitN s sep (Suc 0) = [s]"
| "SplitN s sep (Suc (Suc n)) =
     (if sep \<in> set s
      then takeWhile (\<lambda>c. c \<noteq> sep) s # SplitN (tl (dropWhile (\<lambda>c. c \<noteq> sep) s)) sep (Suc n)
      else [s])"

text \<open>\<^verbatim>\<open>strings.TrimSpace\<close> on ASCII text: tab, line feed, vertical tab, form feed, carriage
  return and space are removed at both ends.\<close>

definition isSpace :: "char \<Rightarrow> bool" where
  "isSpace c = (c \<in> set [CHR 0x09, CHR 0x0A, CHR 0x0B, CHR 0x0C, CHR 0x0D, CHR 0x20])"

definition TrimSpace :: "string \<Rightarrow> string" where
  "TrimSpace s = rev (dropWhile isSpace (rev (dropWhile isSpace s)))"

definition parseErrorToDiagnostic :: "string \<Rightarrow> string \<Rightarrow> Diagnostic" where
  "parseErrorToDiagnostic errMsg defaultPath =
     (let matches = FindStringSubmatch fileLocPattern errMsg
      in if length matches = 4
         then
           (let file = matches ! 1;
                line = Atoi (matches ! 2);
                column = Atoi (matches ! 3);
                messageParts = SplitN errMsg CHR '':'' 4;
                message = (if length messageParts = 4 then TrimSpace (messageParts ! 3)
                           else errMsg)
            in \<lparr>Code = [], Message = message, Severity = ''error'',
                 DFile = file, DLine = line, DColumn = column\<rparr>)
         else
           (let matches = FindStringSubmatch linePattern errMsg
            in if length matches = 2
               then \<lparr>Code = [], Message = errMsg, Severity = ''error'',
                      DFile = defaultPath, DLine = Atoi (matches ! 1), DColumn = 1\<rparr>
               else \<lparr>Code = [], Message = errMsg, Severity = ''error'',
                      DFile = defaultPath, DLine = 1, DColumn = 1\<rparr>))"

text \<open>The three statements \<^verbatim>\<open>CheckSchema\<close> runs for a diagnostic: append it, count it, clear
  \<^verbatim>\<open>Valid\<close>.\<close>

definition addDiagnostic :: "CheckOutput \<Rightarrow> Diagnostic \<Rightarrow> CheckOutput" where
  "addDiagnostic output diagnostic =
     output\<lparr>Diagnostics := Diagnostics output @ [diagnostic],
            Summary := (Summary output)\<lparr>Errors := Errors (Summary output) + 1, Valid := False\<rparr>\<rparr>"

text \<open>The end of both paths of \<^verbatim>\<open>CheckSchema\<close>: encode the report, or return the encoder's error.\<close>

definition marshalOutput :: "Env \<Rightarrow> CheckOutput \<Rightarrow> string + string" where
  "marshalOutput env output =
     (case MarshalIndent env output of
        Inl marshalErr \<Rightarrow> Inl (''failed to marshal check output: '' @ marshalErr)
      | Inr jsonBytes \<Rightarrow> Inr jsonBytes)"

definition CheckSchema :: "Env \<Rightarrow> string \<Rightarrow> string + string" where
  "CheckSchema env path =
     (let output = NewCheckOutput
      in case loadSchemaWithoutValidation env path of
           Inl err \<Rightarrow>
             (let diagnostic = parseErrorToDiagnostic err path
              in marshalOutput env (addDiagnostic output diagnostic))
         | Inr schema \<Rightarrow>
             (let duplicateDiagnostics =
                    ValidateDuplicateTablesAsDiagnostics (Quote env) (RangeOrder env) schema
              in marshalOutput env (foldl addDiagnostic output duplicateDiagnostics)))"

section \<open>Notions used to state the properties\<close>

text \<open>Counting for the Position Resolver: the newlines of a prefix, and the bytes after its last
  newline.\<close>

definition newlines_in :: "string \<Rightarrow> nat" where
  "newlines_in s = length (filter (\<lambda>c. c = newline) s)"

definition bytes_after_last_newline :: "string \<Rightarrow> nat" where
  "bytes_after_last_newline s = length (takeWhile (\<lambda>c. c \<noteq> newline) (rev s))"

text \<open>The schema a table is compared under: an empty schema counts as \<^verbatim>\<open>public\<close>.\<close>

definition effective_schema :: "string \<Rightarrow> string" where
  "effective_schema s = (if s = [] then ''public'' else s)"

text \<open>The node kinds \<^verbatim>\<open>formatExpr\<close> has a case for.\<close>

fun recognized_expr :: "Node \<Rightarrow> bool" where
  "recognized_expr (Node_AConst c) = True"
| "recognized_expr (Node_FuncCall funcname args) = True"
| "recognized_expr (Node_TypeCast arg) = True"
| "recognized_expr (Node_SqlvalueFunction op) = True"
| "recognized_expr _ = False"

text \<open>The tables an \<^verbatim>\<open>ALTER TABLE\<close> on the relation \<open>rel\<close> addresses, and the row-security flag
  its sub-commands leave: the last \<^verbatim>\<open>ENABLE\<close> or \<^verbatim>\<open>DISABLE\<close> decides, none keeps the flag.\<close>

definition is_target :: "RangeVar \<Rightarrow> Table \<Rightarrow> bool" where
  "is_target rel t =
     (Name t = Relname rel \<and> effective_schema (Schema t) = effective_schema (Schemaname rel))"

fun final_rls :: "bool \<Rightarrow> Node list \<Rightarrow> bool" where
  "final_rls b [] = b"
| "final_rls b (Node_AlterTableCmd AT_EnableRowSecurity # cmds) = final_rls True cmds"
| "final_rls b (Node_AlterTableCmd AT_DisableRowSecurity # cmds) = final_rls False cmds"
| "final_rls b (_ # cmds) = final_rls b cmds"

text \<open>A schema in which two tables have the effective name \<^verbatim>\<open>public.users\<close>.\<close>

definition users_implicit :: Table where
  "users_implicit =
     \<lparr>Name = ''users'', Schema = [], Columns = [], RLSEnabled = False,
      SourceLocation = Some \<lparr>File = ''a.lp.sql'', Line = 1, Column = 1\<rparr>\<rparr>"

definition users_explicit :: Table where
  "users_explicit =
     \<lparr>Name = ''users'', Schema = ''public'', Columns = [], RLSEnabled = False,
      SourceLocation = Some \<lparr>File = ''b.lp.sql'', Line = 3, Column = 5\<rparr>\<rparr>"

definition users_auth :: Table where
  "users_auth =
     \<lparr>Name = ''users'', Schema = ''auth'', Columns = [], RLSEnabled = False,
      SourceLocation = None\<rparr>"




text \<open>
  The example statement of the specification, and the tree the parser delivers for it:
  \<^verbatim>\<open>BIGINT\<close> and \<^verbatim>\<open>TIMESTAMP WITH TIME ZONE\<close> arrive as the catalog types \<^verbatim>\<open>int8\<close> and
  \<^verbatim>\<open>timestamptz\<close>, \<^verbatim>\<open>TEXT\<close> as the plain name \<^verbatim>\<open>text\<close>, and the statement starts at offset 0.
  The name of the called function is the parameter \<open>funcname\<close>. The parser folds an
  identifier that is not quoted to lower case (the repository's test
  \<^verbatim>\<open>TestLoadSchemaCaseSensitivity\<close> relies on it for table names), so for the \<^verbatim>\<open>NOW\<close> of the
  statement \<open>funcname\<close> is \<^verbatim>\<open>now\<close>.
\<close>

definition users_sql :: string where
  "users_sql = ''CREATE TABLE users (id BIGINT PRIMARY KEY, email TEXT NOT NULL, created_at TIMESTAMP WITH TIME ZONE DEFAULT NOW());''"

definition users_stmts :: "string \<Rightarrow> RawStmt list" where
  "users_stmts funcname =
     [\<lparr>Stmt = Some (Node_CreateStmt (Some \<lparr>Schemaname = [], Relname = ''users''\<rparr>)
         [Node_ColumnDef ''id''
            (Some (TypeName [Node_String ''pg_catalog'', Node_String ''int8''] [] []))
            [Node_Constraint CONSTR_PRIMARY None],
          Node_ColumnDef ''email''
            (Some (TypeName [Node_String ''text''] [] []))
            [Node_Constraint CONSTR_NOTNULL None],
          Node_ColumnDef ''created_at''
            (Some (TypeName [Node_String ''pg_catalog'', Node_String ''timestamptz''] [] []))
            [Node_Constraint CONSTR_DEFAULT (Some (Node_FuncCall [Node_String funcname] []))]]),
       StmtLocation = 0\<rparr>]"

text \<open>A parser that delivers this tree for the example statement, the function name in
  lower case.\<close>

definition now_parser :: "string \<Rightarrow> string + RawStmt list" where
  "now_parser sql =
     (if sql = users_sql then Inr (users_stmts ''now'') else Inl ''syntax error at end of input'')"

text \<open>What the example scenario asks of the result, with the text of the default as a parameter.\<close>

definition lowers_to_users :: "string \<Rightarrow> string + Schema \<Rightarrow> bool" where
  "lowers_to_users default_text r =
     (case r of
        Inl err \<Rightarrow> False
      | Inr schema \<Rightarrow>
          (case Tables schema of
             [table] \<Rightarrow>
               Name table = ''users'' \<and> Schema table = [] \<and>
               (case Columns table of
                  [c1, c2, c3] \<Rightarrow>
                    ColName c1 = ''id'' \<and> IsPrimaryKey c1 \<and> \<not> Nullable c1 \<and>
                    ColName c2 = ''email'' \<and> \<not> Nullable c2 \<and> Default c2 = None \<and>
                    ColName c3 = ''created_at'' \<and> Nullable c3 \<and> Default c3 = Some default_text
                | _ \<Rightarrow> False)
           | _ \<Rightarrow> False))"

text \<open>The key of the Duplicate Validator, the indices at which a key occurs in a table list,
  and the entry the validators keep for a key.\<close>

definition table_key :: "Table \<Rightarrow> string" where
  "table_key t = effective_schema (Schema t) @ ''.'' @ Name t"






text \<open>The entries of a directory the loader reads, the tables one file contributes, and the
  relations the \<^verbatim>\<open>CREATE TABLE\<close> statements of a file name, in statement order.\<close>

definition is_schema_file :: "DirEntry \<Rightarrow> bool" where
  "is_schema_file e =
     (\<not> EntryIsDir e \<and> \<not> EntryIsSymlink e \<and> HasSuffix (ToLower (EntryName e)) ''.lp.sql'')"

definition file_tables :: "Env \<Rightarrow> string \<Rightarrow> Table list" where
  "file_tables env path =
     (case ReadFile env path of
        Inl err \<Rightarrow> []
      | Inr data \<Rightarrow>
          (case ParseSQLSchemaWithDialectAndFilename (Parse env) data DialectPostgres path of
             Inl err \<Rightarrow> []
           | Inr schema \<Rightarrow> Tables schema))"

fun created_relations :: "RawStmt list \<Rightarrow> (string \<times> string) list" where
  "created_relations [] = []"
| "created_relations (stmt # stmts) =
     (case Stmt stmt of
        Some (Node_CreateStmt (Some rel) tableElts) \<Rightarrow>
          (Schemaname rel, Relname rel) # created_relations stmts
      | _ \<Rightarrow> created_relations stmts)"

definition relation_of :: "Table \<Rightarrow> string \<times> string" where
  "relation_of t = (Schema t, Name t)"

text \<open>
  What it means for a regular expression of the checker to match: \<open>item_match items s groups rest\<close>
  holds when the text \<open>s\<close> starts with a match of the items that captures \<open>groups\<close> and
  is followed by \<open>rest\<close>. An error text has a \<^verbatim>\<open>path:line:col\<close> when it contains a non-empty
  run of bytes other than colons, a colon, decimal digits, a colon and decimal digits;
  it has a line number when it contains \<^verbatim>\<open>line\<close>, a space and decimal digits.
\<close>

fun item_match :: "re_item list \<Rightarrow> string \<Rightarrow> string list \<Rightarrow> string \<Rightarrow> bool" where
  "item_match [] s groups rest = (groups = [] \<and> rest = s)"
| "item_match (Lit c # items) s groups rest =
     (\<exists>s'. s = c # s' \<and> item_match items s' groups rest)"
| "item_match (PlusGroup cls # items) s groups rest =
     (\<exists>g groups' s'. g \<noteq> [] \<and> (\<forall>c \<in> set g. cls c) \<and> s = g @ s' \<and> groups = g # groups'
        \<and> item_match items s' groups' rest)"

definition has_path_line_col :: "string \<Rightarrow> bool" where
  "has_path_line_col s =
     (\<exists>pre path line col post.
        s = pre @ path @ '':'' @ line @ '':'' @ col @ post
        \<and> path \<noteq> [] \<and> CHR '':'' \<notin> set path
        \<and> line \<noteq> [] \<and> (\<forall>c \<in> set line. isDigit c)
        \<and> col \<noteq> [] \<and> (\<forall>c \<in> set col. isDigit c))"

definition has_line_number :: "string \<Rightarrow> bool" where
  "has_line_number s =
     (\<exists>pre n post. s = pre @ ''line '' @ n @ post \<and> n \<noteq> [] \<and> (\<forall>c \<in> set n. isDigit c))"

text \<open>Where the Check Pipeline locates a load failure: at the first \<^verbatim>\<open>path:line:col\<close> of the
  error text if it has one, else at its first \<^verbatim>\<open>line N\<close> in the input path if it has one,
  else at line 1, column 1 of the input path.\<close>

definition error_location :: "string \<Rightarrow> string \<Rightarrow> string \<times> int \<times> int" where
  "error_location errMsg path =
     (if has_path_line_col errMsg
      then (let m = FindStringSubmatch fileLocPattern errMsg
            in (m ! 1, Atoi (m ! 2), Atoi (m ! 3)))
      else if has_line_number errMsg
      then (path, Atoi (FindStringSubmatch linePattern errMsg ! 1), 1)
      else (path, 1, 1))"

text \<open>
  An environment to run the loader and the checker in. The directory \<^verbatim>\<open>schema\<close> holds two
  schema files, \<^verbatim>\<open>empty\<close> holds none, \<^verbatim>\<open>notes.sql\<close> is a file with another suffix,
  \<^verbatim>\<open>dup.lp.sql\<close> defines \<^verbatim>\<open>public.users\<close> twice and \<^verbatim>\<open>broken.lp.sql\<close> does not parse.
\<close>

definition bigint_column :: "string \<Rightarrow> Node" where
  "bigint_column name =
     Node_ColumnDef name (Some (TypeName [Node_String ''pg_catalog'', Node_String ''int8''] [] [])) []"

definition sql_users :: string where
  "sql_users = ''CREATE TABLE users (id BIGINT); ALTER TABLE users ENABLE ROW LEVEL SECURITY;''"

definition stmts_users :: "RawStmt list" where
  "stmts_users =
     [\<lparr>Stmt = Some (Node_CreateStmt (Some \<lparr>Schemaname = [], Relname = ''users''\<rparr>)
                      [bigint_column ''id'']),
       StmtLocation = 0\<rparr>,
      \<lparr>Stmt = Some (Node_AlterTableStmt (Some \<lparr>Schemaname = [], Relname = ''users''\<rparr>)
                      [Node_AlterTableCmd AT_EnableRowSecurity]),
       StmtLocation = 31\<rparr>]"

definition sql_posts :: string where
  "sql_posts = ''CREATE TABLE posts (id BIGINT); CREATE TABLE auth.users (id BIGINT);''"

definition stmts_posts :: "RawStmt list" where
  "stmts_posts =
     [\<lparr>Stmt = Some (Node_CreateStmt (Some \<lparr>Schemaname = [], Relname = ''posts''\<rparr>)
                      [bigint_column ''id'']),
       StmtLocation = 0\<rparr>,
      \<lparr>Stmt = Some (Node_CreateStmt (Some \<lparr>Schemaname = ''auth'', Relname = ''users''\<rparr>)
                      [bigint_column ''id'']),
       StmtLocation = 31\<rparr>]"

definition sql_dup :: string where
  "sql_dup = ''CREATE TABLE users (id BIGINT); CREATE TABLE public.users (id BIGINT);''"

definition stmts_dup :: "RawStmt list" where
  "stmts_dup =
     [\<lparr>Stmt = Some (Node_CreateStmt (Some \<lparr>Schemaname = [], Relname = ''users''\<rparr>)
                      [bigint_column ''id'']),
       StmtLocation = 0\<rparr>,
      \<lparr>Stmt = Some (Node_CreateStmt (Some \<lparr>Schemaname = ''public'', Relname = ''users''\<rparr>)
                      [bigint_column ''id'']),
       StmtLocation = 31\<rparr>]"

definition example_parser :: "string \<Rightarrow> string + RawStmt list" where
  "example_parser sql =
     (if sql = sql_users then Inr stmts_users
      else if sql = sql_posts then Inr stmts_posts
      else if sql = sql_dup then Inr stmts_dup
      else Inl ''syntax error at end of input'')"

definition double_quoted :: "string \<Rightarrow> string" where
  "double_quoted s = CHR 0x22 # s @ [CHR 0x22]"

definition schema_entries :: "DirEntry list" where
  "schema_entries =
     [\<lparr>EntryName = ''users.LP.SQL'', EntryIsDir = False, EntryIsSymlink = False\<rparr>,
      \<lparr>EntryName = ''posts.lp.sql'', EntryIsDir = False, EntryIsSymlink = False\<rparr>]"

definition empty_entries :: "DirEntry list" where
  "empty_entries =
     [\<lparr>EntryName = ''README.md'', EntryIsDir = False, EntryIsSymlink = False\<rparr>,
      \<lparr>EntryName = ''archive.lp.sql'', EntryIsDir = True, EntryIsSymlink = False\<rparr>,
      \<lparr>EntryName = ''link.lp.sql'', EntryIsDir = False, EntryIsSymlink = True\<rparr>]"

definition example_env :: Env where
  "example_env =
     \<lparr>Stat = (\<lambda>path. if path = ''schema'' \<or> path = ''empty'' then Inr True
                     else if path = ''notes.sql'' \<or> path = ''dup.lp.sql''
                             \<or> path = ''broken.lp.sql'' then Inr False
                     else Inl ''no such file or directory''),
      ReadDir = (\<lambda>path. if path = ''schema'' then Inr schema_entries
                        else if path = ''empty'' then Inr empty_entries
                        else Inl ''not a directory''),
      ReadFile = (\<lambda>path. if path = ''schema/users.LP.SQL'' then Inr sql_users
                         else if path = ''schema/posts.lp.sql'' then Inr sql_posts
                         else if path = ''dup.lp.sql'' then Inr sql_dup
                         else if path = ''broken.lp.sql'' then Inr ''CREATE TABLE''
                         else Inl ''no such file or directory''),
      PathJoin = (\<lambda>dir name. dir @ ''/'' @ name),
      Parse = example_parser,
      Quote = double_quoted,
      RangeOrder = rev,
      MarshalIndent = (\<lambda>out. Inr (''errors: '' @ show_int (Errors (Summary out))))\<rparr>"

text \<open>The schemas these inputs lower to.\<close>

definition id_column :: Column where
  "id_column = \<lparr>ColName = ''id'', Type = ''bigint'', Nullable = True, IsPrimaryKey = False,
                 Default = None\<rparr>"

definition example_schema :: Schema where
  "example_schema =
     \<lparr>Tables =
        [\<lparr>Name = ''posts'', Schema = [], Columns = [id_column], RLSEnabled = False,
          SourceLocation = Some \<lparr>File = ''schema/posts.lp.sql'', Line = 1, Column = 1\<rparr>\<rparr>,
         \<lparr>Name = ''users'', Schema = ''auth'', Columns = [id_column], RLSEnabled = False,
          SourceLocation = Some \<lparr>File = ''schema/posts.lp.sql'', Line = 1, Column = 32\<rparr>\<rparr>,
         \<lparr>Name = ''users'', Schema = [], Columns = [id_column], RLSEnabled = True,
          SourceLocation = Some \<lparr>File = ''schema/users.LP.SQL'', Line = 1, Column = 1\<rparr>\<rparr>],
      Dialect = DialectPostgres\<rparr>"

definition dup_schema :: Schema where
  "dup_schema =
     \<lparr>Tables =
        [\<lparr>Name = ''users'', Schema = [], Columns = [id_column], RLSEnabled = False,
          SourceLocation = Some \<lparr>File = ''dup.lp.sql'', Line = 1, Column = 1\<rparr>\<rparr>,
         \<lparr>Name = ''users'', Schema = ''public'', Columns = [id_column], RLSEnabled = False,
          SourceLocation = Some \<lparr>File = ''dup.lp.sql'', Line = 1, Column = 32\<rparr>\<rparr>],
      Dialect = DialectPostgres\<rparr>"

section \<open>Properties\<close>

subsection \<open>The Position Resolver is total\<close>

lemma lineColumnLoop_eq:
  "lineColumnLoop s line column =
     (line + int (newlines_in s),
      if newline \<in> set s then 1 + int (bytes_after_last_newline s)
      else column + int (length s))"
proof (induction s arbitrary: line column)
  case Nil
  show ?case by (simp add: newlines_in_def)
next
  case (Cons c cs)
  show ?case
  proof (cases "c = newline")
    case True
    then show ?thesis
      by (auto simp: Cons.IH newlines_in_def bytes_after_last_newline_def takeWhile_append)
  next
    case False
    then show ?thesis
      by (auto simp: Cons.IH newlines_in_def bytes_after_last_newline_def takeWhile_append)
  qed
qed

text \<open>
  Claim C9. The Position Resolver is total; for an offset within the text (zero to its
  length, inclusive) it returns line 1 + the number of newlines before the offset and
  column 1 + the number of bytes after the last of them, and for every negative or too
  large offset it returns (1, 1).
\<close>

theorem byteOffsetToLineColumn_total:
  "byteOffsetToLineColumn sql offset =
     (if sint offset < 0 \<or> int (length sql) < sint offset then (1, 1)
      else (1 + int (newlines_in (take (nat (sint offset)) sql)),
            1 + int (bytes_after_last_newline (take (nat (sint offset)) sql))))"
proof -
  have "bytes_after_last_newline s = length s" if "newline \<notin> set s" for s
  proof -
    have "takeWhile (\<lambda>c. c \<noteq> newline) (rev s) = rev s"
      using that by auto
    then have "length (takeWhile (\<lambda>c. c \<noteq> newline) (rev s)) = length (rev s)"
      by (rule arg_cong)
    then show ?thesis by (simp only: bytes_after_last_newline_def length_rev)
  qed
  then show ?thesis
    by (simp add: byteOffsetToLineColumn_def lineColumnLoop_eq)
qed

theorem byteOffsetToLineColumn_total_witness:
  "byteOffsetToLineColumn [CHR ''a'', newline, CHR ''b'', CHR ''c''] 3 = (2, 2)
   \<and> byteOffsetToLineColumn [CHR ''a'', newline, CHR ''b'', CHR ''c''] (- 1) = (1, 1)
   \<and> byteOffsetToLineColumn [CHR ''a'', newline, CHR ''b'', CHR ''c''] 5 = (1, 1)"
  using byteOffsetToLineColumn_total [of "[CHR ''a'', newline, CHR ''b'', CHR ''c'']" 3]
    byteOffsetToLineColumn_total [of "[CHR ''a'', newline, CHR ''b'', CHR ''c'']" "- 1"]
    byteOffsetToLineColumn_total [of "[CHR ''a'', newline, CHR ''b'', CHR ''c'']" 5]
  by (simp add: newlines_in_def bytes_after_last_newline_def)


subsection \<open>The Expression Formatter\<close>

text \<open>
  Claim C7. \<^verbatim>\<open>formatExpr\<close> is a total function (its definition above is accepted with its
  termination proof) and returns a string for every node: the placeholder
  \<^verbatim>\<open>UNDEFINED_EXPRESSION\<close> for every node of a kind it has no case for, the rendering of
  the inner argument for a type cast that has one, and for the value functions with a
  precision (operation codes 3, 5, 7, 9) the text of the ones without (2, 4, 6, 8).
\<close>

theorem formatExpr_placeholder:
  "(\<not> recognized_expr n \<longrightarrow> formatExpr (Some n) = ''UNDEFINED_EXPRESSION'')
   \<and> formatExpr (Some (Node_TypeCast (Some a))) = formatExpr (Some a)
   \<and> formatExpr (Some (Node_SqlvalueFunction 3)) = formatExpr (Some (Node_SqlvalueFunction 2))
   \<and> formatExpr (Some (Node_SqlvalueFunction 5)) = formatExpr (Some (Node_SqlvalueFunction 4))
   \<and> formatExpr (Some (Node_SqlvalueFunction 7)) = formatExpr (Some (Node_SqlvalueFunction 6))
   \<and> formatExpr (Some (Node_SqlvalueFunction 9)) = formatExpr (Some (Node_SqlvalueFunction 8))"
  by (cases n) (simp_all add: UNDEFINED_EXPRESSION_def formatSqlvalueFunction_def)

theorem formatExpr_placeholder_witness:
  "\<not> recognized_expr (Node_other ''A_Expr'')
   \<and> formatExpr (Some (Node_other ''A_Expr'')) = ''UNDEFINED_EXPRESSION''
   \<and> formatExpr (Some (Node_TypeCast (Some (Node_AConst \<lparr>Val = Some (A_Const_Sval ''a''), Isnull = False\<rparr>))))
       = [squote, CHR ''a'', squote]
   \<and> formatExpr (Some (Node_SqlvalueFunction 5)) = ''CURRENT_TIMESTAMP''"
  using formatExpr_placeholder [of "Node_other ''A_Expr''"
      "Node_AConst \<lparr>Val = Some (A_Const_Sval ''a''), Isnull = False\<rparr>"]
  by (simp add: formatAConst_def GetIval_def GetFval_def GetSval_def formatSqlvalueFunction_def)

subsection \<open>ALTER TABLE changes one flag of one table\<close>

lemma findTable_Some:
  "findTable ts n s k = Some i \<Longrightarrow>
     k \<le> i \<and> i - k < length ts \<and> Name (ts ! (i - k)) = n
     \<and> effective_schema (Schema (ts ! (i - k))) = s
     \<and> (\<forall>j < i - k. \<not> (Name (ts ! j) = n \<and> effective_schema (Schema (ts ! j)) = s))"
proof (induction ts arbitrary: k)
  case Nil
  then show ?case by simp
next
  case (Cons t ts)
  show ?case
  proof (cases "Name t = n \<and> effective_schema (Schema t) = s")
    case True
    with Cons.prems show ?thesis by (auto simp: effective_schema_def Let_def)
  next
    case False
    with Cons.prems have f: "findTable ts n s (Suc k) = Some i"
      by (auto simp: effective_schema_def Let_def split: if_splits)
    from Cons.IH [OF f] have ih: "Suc k \<le> i" "i - Suc k < length ts"
      "Name (ts ! (i - Suc k)) = n" "effective_schema (Schema (ts ! (i - Suc k))) = s"
      "\<forall>j < i - Suc k. \<not> (Name (ts ! j) = n \<and> effective_schema (Schema (ts ! j)) = s)"
      by auto
    from ih(1) have e: "i - k = Suc (i - Suc k)" by simp
    show ?thesis
      using ih False unfolding e
      by (auto simp: less_Suc_eq_0_disj)
  qed
qed

lemma findTable_None:
  "findTable ts n s k = None \<Longrightarrow> t \<in> set ts \<Longrightarrow>
     \<not> (Name t = n \<and> effective_schema (Schema t) = s)"
  by (induction ts arbitrary: k) (auto simp: effective_schema_def Let_def split: if_splits)

lemma applyCmds_frame:
  "i < length (Tables s) \<Longrightarrow>
     applyCmds s i cmds =
       s\<lparr>Tables := (Tables s)[i := (Tables s ! i)\<lparr>RLSEnabled := final_rls (RLSEnabled (Tables s ! i)) cmds\<rparr>]\<rparr>"
proof (induction s i cmds rule: applyCmds.induct)
  case (1 schema tableIndex)
  then show ?case by simp
next
  case (2 schema tableIndex subtype cmds)
  then show ?case
    by (cases subtype) (simp_all add: setRLS_def)
qed simp_all

text \<open>
  Claim C10. An \<^verbatim>\<open>ALTER TABLE\<close> with a relation returns no error, keeps the number of
  tables and the dialect, and changes at most the row-security flag of a table: every
  table keeps its name, schema, columns and source location; a table that is not
  addressed, or that comes after an addressed one, is unchanged; and the earliest
  addressed table gets the flag its \<^verbatim>\<open>ENABLE\<close> and \<^verbatim>\<open>DISABLE\<close> sub-commands leave.
\<close>

theorem parseAlterTable_frame:
  "\<exists>schema'. parseAlterTable schema (Some rel) cmds = Inr schema'
     \<and> Dialect schema' = Dialect schema
     \<and> length (Tables schema') = length (Tables schema)
     \<and> (\<forall>j < length (Tables schema).
           (\<exists>b. Tables schema' ! j = (Tables schema ! j)\<lparr>RLSEnabled := b\<rparr>)
         \<and> (\<not> is_target rel (Tables schema ! j) \<or> (\<exists>i < j. is_target rel (Tables schema ! i))
              \<longrightarrow> Tables schema' ! j = Tables schema ! j)
         \<and> (is_target rel (Tables schema ! j) \<and> (\<forall>i < j. \<not> is_target rel (Tables schema ! i))
              \<longrightarrow> Tables schema' ! j =
                   (Tables schema ! j)\<lparr>RLSEnabled := final_rls (RLSEnabled (Tables schema ! j)) cmds\<rparr>))"
proof (cases "findTable (Tables schema) (Relname rel) (effective_schema (Schemaname rel)) 0")
  case None
  then have p: "parseAlterTable schema (Some rel) cmds = Inr schema"
    by (simp add: parseAlterTable_def effective_schema_def)
  have same: "Tables schema ! j = (Tables schema ! j)\<lparr>RLSEnabled := RLSEnabled (Tables schema ! j)\<rparr>" for j
    by simp
  have none: "\<not> is_target rel (Tables schema ! j)" if "j < length (Tables schema)" for j
    using findTable_None [OF None] that by (auto simp: is_target_def)
  show ?thesis
    unfolding p using same none by blast
next
  case (Some i)
  from findTable_Some [OF Some] have i: "i < length (Tables schema)"
    "is_target rel (Tables schema ! i)" "\<forall>j < i. \<not> is_target rel (Tables schema ! j)"
    by (auto simp: is_target_def)
  define t' where "t' = (Tables schema ! i)\<lparr>RLSEnabled := final_rls (RLSEnabled (Tables schema ! i)) cmds\<rparr>"
  have p: "parseAlterTable schema (Some rel) cmds = Inr (schema\<lparr>Tables := (Tables schema)[i := t']\<rparr>)"
    using Some applyCmds_frame [OF i(1), of cmds]
    by (simp add: parseAlterTable_def effective_schema_def t'_def)
  have upd: "\<exists>c. ((Tables schema)[i := t']) ! j = (Tables schema ! j)\<lparr>RLSEnabled := c\<rparr>"
    if "j < length (Tables schema)" for j
  proof (cases "j = i")
    case True
    with that show ?thesis by (auto simp: t'_def)
  next
    case False
    then have "((Tables schema)[i := t']) ! j = (Tables schema ! j)\<lparr>RLSEnabled := RLSEnabled (Tables schema ! j)\<rparr>"
      by simp
    then show ?thesis by blast
  qed
  have other: "((Tables schema)[i := t']) ! j = Tables schema ! j"
    if "j < length (Tables schema)"
      "\<not> is_target rel (Tables schema ! j) \<or> (\<exists>k < j. is_target rel (Tables schema ! k))" for j
  proof -
    from that i have "j \<noteq> i" by auto
    then show ?thesis by simp
  qed
  have first: "((Tables schema)[i := t']) ! j =
      (Tables schema ! j)\<lparr>RLSEnabled := final_rls (RLSEnabled (Tables schema ! j)) cmds\<rparr>"
    if "j < length (Tables schema)" "is_target rel (Tables schema ! j)"
      "\<forall>k < j. \<not> is_target rel (Tables schema ! k)" for j
  proof -
    from that i have "j = i" by (meson linorder_neqE_nat)
    with i(1) show ?thesis by (simp add: t'_def)
  qed
  show ?thesis
    unfolding p using upd other first by simp
qed

theorem parseAlterTable_frame_witness:
  "is_target \<lparr>Schemaname = ''public'', Relname = ''users''\<rparr> users_implicit
   \<and> is_target \<lparr>Schemaname = ''public'', Relname = ''users''\<rparr> users_explicit
   \<and> parseAlterTable \<lparr>Tables = [users_auth, users_implicit, users_explicit], Dialect = DialectPostgres\<rparr>
        (Some \<lparr>Schemaname = ''public'', Relname = ''users''\<rparr>)
        [Node_AlterTableCmd AT_DisableRowSecurity, Node_AlterTableCmd AT_EnableRowSecurity]
     = Inr \<lparr>Tables = [users_auth, users_implicit\<lparr>RLSEnabled := True\<rparr>, users_explicit],
            Dialect = DialectPostgres\<rparr>"
proof -
  have run: "parseAlterTable \<lparr>Tables = [users_auth, users_implicit, users_explicit], Dialect = DialectPostgres\<rparr>
        (Some \<lparr>Schemaname = ''public'', Relname = ''users''\<rparr>)
        [Node_AlterTableCmd AT_DisableRowSecurity, Node_AlterTableCmd AT_EnableRowSecurity]
     = Inr \<lparr>Tables = [users_auth, users_implicit\<lparr>RLSEnabled := True\<rparr>, users_explicit],
            Dialect = DialectPostgres\<rparr>"
    by (simp add: users_implicit_def users_explicit_def users_auth_def parseAlterTable_def
        setRLS_def Let_def)
  have target: "is_target \<lparr>Schemaname = ''public'', Relname = ''users''\<rparr> users_implicit"
    "is_target \<lparr>Schemaname = ''public'', Relname = ''users''\<rparr> users_explicit"
    by (simp_all add: is_target_def effective_schema_def users_implicit_def users_explicit_def)
  from parseAlterTable_frame [of
      "\<lparr>Tables = [users_auth, users_implicit, users_explicit], Dialect = DialectPostgres\<rparr>"
      "\<lparr>Schemaname = ''public'', Relname = ''users''\<rparr>"
      "[Node_AlterTableCmd AT_DisableRowSecurity, Node_AlterTableCmd AT_EnableRowSecurity]"]
    run target
  show ?thesis by simp
qed

subsection \<open>Type rendering\<close>







subsection \<open>The example scenario\<close>

lemma users_lowering:
  assumes "parser users_sql = Inr (users_stmts funcname)"
  shows "parsePostgresSQLSchemaWithFilename parser users_sql filename =
     Inr \<lparr>Tables =
            [\<lparr>Name = ''users'', Schema = [],
              Columns =
                [\<lparr>ColName = ''id'', Type = ''bigint'', Nullable = False,
                   IsPrimaryKey = True, Default = None\<rparr>,
                 \<lparr>ColName = ''email'', Type = ''text'', Nullable = False,
                   IsPrimaryKey = False, Default = None\<rparr>,
                 \<lparr>ColName = ''created_at'', Type = ''timestamp with time zone'',
                   Nullable = True, IsPrimaryKey = False, Default = Some (funcname @ ''()'')\<rparr>],
              RLSEnabled = False,
              SourceLocation = Some \<lparr>File = filename, Line = 1, Column = 1\<rparr>\<rparr>],
          Dialect = DialectPostgres\<rparr>"
proof -
  have n: "normalizePostgreSQLType ''int8'' = ''bigint''"
    "normalizePostgreSQLType ''text'' = ''text''"
    "normalizePostgreSQLType ''timestamptz'' = ''timestamp with time zone''"
    by code_simp+
  have "parsePostgresSQLSchemaWithFilename parser users_sql filename =
      walkStmts \<lparr>ctx_sql = users_sql, ctx_filename = filename\<rparr>
        \<lparr>Tables = [], Dialect = DialectPostgres\<rparr> (users_stmts funcname)"
    using assms by (simp add: parsePostgresSQLSchemaWithFilename_def)
  then show ?thesis
    by (simp add: users_stmts_def parseCreateTable_def
        parseColumnDef_def parseColumnConstraint_def byteOffsetToLineColumn_def n)
qed

text \<open>
  Claim C2, as the specification states it, fails: the function name reaches the
  program as \<^verbatim>\<open>now\<close>, and the default is rendered from it unchanged, so its text is
  \<^verbatim>\<open>now()\<close> and not \<^verbatim>\<open>NOW()\<close>.
\<close>

theorem users_default_counterexample:
  "\<not> lowers_to_users ''NOW()''
       (parsePostgresSQLSchemaWithFilename now_parser users_sql ''users.lp.sql'')"
proof -
  have "now_parser users_sql = Inr (users_stmts ''now'')"
    by (simp add: now_parser_def)
  from users_lowering [of now_parser "''now''" "''users.lp.sql''", OF this] show ?thesis
    by (simp add: lowers_to_users_def)
qed

text \<open>
  Claim C2, amended. When the parser delivers the tree of the example statement,
  lowering produces exactly one table named \<^verbatim>\<open>users\<close> with an empty stored schema and the
  three columns in source order: \<^verbatim>\<open>id\<close> primary key and not nullable, \<^verbatim>\<open>email\<close> not
  nullable and without default, \<^verbatim>\<open>created_at\<close> nullable with the default text made of the
  function name as the parser delivers it and \<^verbatim>\<open>()\<close>, which is \<^verbatim>\<open>now()\<close>.
\<close>

theorem users_lowering_amended:
  assumes "parser users_sql = Inr (users_stmts funcname)"
  shows "lowers_to_users (funcname @ ''()'')
           (parsePostgresSQLSchemaWithFilename parser users_sql filename)"
  using users_lowering [of parser funcname filename, OF assms] by (simp add: lowers_to_users_def)

theorem users_lowering_amended_witness:
  "now_parser users_sql = Inr (users_stmts ''now'')
   \<and> lowers_to_users ''now()''
       (parsePostgresSQLSchemaWithFilename now_parser users_sql ''users.lp.sql'')"
proof -
  have p: "now_parser users_sql = Inr (users_stmts ''now'')"
    by (simp add: now_parser_def)
  from users_lowering_amended [of now_parser "''now''" "''users.lp.sql''", OF p] p show ?thesis
    by simp
qed

subsection \<open>The Duplicate Validator\<close>























text \<open>
  The keys are the strings \<^verbatim>\<open>schema.name\<close>. For tables of one name the key determines the
  effective schema; a dot inside a quoted name can make
  the keys of two different relations equal.
\<close>

lemma table_key_same_name:
  "Name t1 = Name t2 \<Longrightarrow>
     table_key t1 = table_key t2 \<longleftrightarrow> effective_schema (Schema t1) = effective_schema (Schema t2)"
  by (simp add: table_key_def)

lemma table_key_dotted_names:
  "table_key (users_auth\<lparr>Schema := ''a'', Name := ''b.c''\<rparr>)
     = table_key (users_auth\<lparr>Schema := ''a.b'', Name := ''c''\<rparr>)"
  by (simp add: table_key_def effective_schema_def users_auth_def)




subsection \<open>The File/Directory Loader\<close>

lemma collectSqlFiles_eq:
  "collectSqlFiles env dir entries =
     map (\<lambda>e. PathJoin env dir (EntryName e)) (filter is_schema_file entries)"
  by (induction entries) (simp_all add: is_schema_file_def Let_def)

lemma loadTables_eq:
  "loadTables env acc files = Inr ts \<Longrightarrow>
     ts = acc @ concat (map (file_tables env) files)"
proof (induction files arbitrary: acc)
  case Nil
  then show ?case by simp
next
  case (Cons f files)
  from Cons.prems obtain data schema where
    r: "ReadFile env f = Inr data"
    and l: "loadSQLSchemaFromBytesWithFilename env data f = Inr schema"
    and rest: "loadTables env (acc @ Tables schema) files = Inr ts"
    by (auto split: sum.splits)
  from l have "ParseSQLSchemaWithDialectAndFilename (Parse env) data DialectPostgres f = Inr schema"
    by (auto simp: loadSQLSchemaFromBytesWithFilename_def split: sum.splits option.splits)
  with r have "file_tables env f = Tables schema"
    by (simp add: file_tables_def)
  with Cons.IH [OF rest] show ?case by simp
qed

lemma loadTables_files:
  "loadTables env acc files = Inr ts \<Longrightarrow> file \<in> set files \<Longrightarrow>
     \<exists>data schema. ReadFile env file = Inr data
        \<and> ParseSQLSchemaWithDialectAndFilename (Parse env) data DialectPostgres file = Inr schema"
proof (induction files arbitrary: acc)
  case Nil
  then show ?case by simp
next
  case (Cons f files)
  from Cons.prems(1) obtain data schema where
    r: "ReadFile env f = Inr data"
    and l: "loadSQLSchemaFromBytesWithFilename env data f = Inr schema"
    and rest: "loadTables env (acc @ Tables schema) files = Inr ts"
    by (auto split: sum.splits)
  from l have p: "ParseSQLSchemaWithDialectAndFilename (Parse env) data DialectPostgres f = Inr schema"
    by (auto simp: loadSQLSchemaFromBytesWithFilename_def split: sum.splits option.splits)
  show ?case
  proof (cases "file = f")
    case True
    with r p show ?thesis by blast
  next
    case False
    with Cons.prems(2) have "file \<in> set files" by simp
    from Cons.IH [OF rest this] show ?thesis .
  qed
qed

lemma setRLS_relations:
  "map relation_of (Tables (setRLS s i b)) = map relation_of (Tables s)"
proof (rule nth_equalityI)
  show "length (map relation_of (Tables (setRLS s i b))) = length (map relation_of (Tables s))"
    by (simp add: setRLS_def)
next
  fix j
  assume "j < length (map relation_of (Tables (setRLS s i b)))"
  then have j: "j < length (Tables s)"
    by (simp add: setRLS_def)
  then show "map relation_of (Tables (setRLS s i b)) ! j = map relation_of (Tables s) ! j"
    by (cases "j = i") (simp_all add: setRLS_def relation_of_def)
qed

lemma applyCmds_relations:
  "i < length (Tables s) \<Longrightarrow> map relation_of (Tables (applyCmds s i cmds)) = map relation_of (Tables s)"
proof (induction s i cmds rule: applyCmds.induct)
  case (2 schema tableIndex subtype cmds)
  have "map relation_of (Tables (setRLS schema tableIndex b)) = map relation_of (Tables schema)" for b
    by (rule setRLS_relations)
  moreover have "length (Tables (setRLS schema tableIndex b)) = length (Tables schema)" for b
    by (simp add: setRLS_def)
  ultimately show ?case
    using 2 by (cases subtype) simp_all
qed simp_all

lemma parseAlterTable_relations:
  "parseAlterTable s relation cmds = Inr s' \<Longrightarrow> map relation_of (Tables s') = map relation_of (Tables s)"
proof (cases relation)
  case None
  assume "parseAlterTable s relation cmds = Inr s'"
  with None show ?thesis by (simp add: parseAlterTable_def)
next
  case (Some rel)
  assume a: "parseAlterTable s relation cmds = Inr s'"
  show ?thesis
  proof (cases "findTable (Tables s) (Relname rel) (if Schemaname rel = [] then ''public'' else Schemaname rel) 0")
    case None
    with a Some show ?thesis by (simp add: parseAlterTable_def)
  next
    case (Some i)
    from findTable_Some [OF Some] have "i < length (Tables s)" by simp
    from applyCmds_relations [OF this, of cmds] a Some \<open>relation = Some rel\<close> show ?thesis
      by (simp add: parseAlterTable_def)
  qed
qed

lemma parseCreateTable_relation:
  "parseCreateTable relation tableElts ctx loc = Inr table \<Longrightarrow>
     \<exists>rel. relation = Some rel \<and> relation_of table = (Schemaname rel, Relname rel)
            \<and> (\<exists>l c. SourceLocation table = Some \<lparr>File = ctx_filename ctx, Line = l, Column = c\<rparr>)"
  by (auto simp: parseCreateTable_def relation_of_def split: option.splits sum.splits prod.splits)

lemma walkStmts_relations:
  "walkStmts ctx s stmts = Inr s' \<Longrightarrow>
     map relation_of (Tables s') = map relation_of (Tables s) @ created_relations stmts"
proof (induction stmts arbitrary: s)
  case Nil
  then show ?case by simp
next
  case (Cons stmt stmts)
  show ?case
  proof (cases "Stmt stmt")
    case None
    with Cons show ?thesis by simp
  next
    case (Some node)
    show ?thesis
    proof (cases node)
      case (Node_CreateStmt relation tableElts)
      with Cons.prems Some obtain table where
        t: "parseCreateTable relation tableElts ctx (StmtLocation stmt) = Inr table"
        and rest: "walkStmts ctx (s\<lparr>Tables := Tables s @ [table]\<rparr>) stmts = Inr s'"
        by (auto split: sum.splits)
      from parseCreateTable_relation [OF t] obtain rel where
        "relation = Some rel" "relation_of table = (Schemaname rel, Relname rel)" by blast
      with Cons.IH [OF rest] Some Node_CreateStmt show ?thesis by simp
    next
      case (Node_AlterTableStmt relation cmds)
      with Cons.prems Some obtain s1 where
        a: "parseAlterTable s relation cmds = Inr s1"
        and rest: "walkStmts ctx s1 stmts = Inr s'"
        by (auto split: sum.splits)
      from Cons.IH [OF rest] parseAlterTable_relations [OF a] Some Node_AlterTableStmt
      show ?thesis by simp
    qed (use Cons Some in simp_all)
  qed
qed



text \<open>
  Claim C3. When every entry of a directory is a schema file (a regular file with the
  recognized suffix) and the loader returns a schema, its tables are the tables of the
  files taken in the lexicographic order of the full paths, each file contributing its
  tables next to each other; and the tables of one file are those of its
  \<^verbatim>\<open>CREATE TABLE\<close> statements, in statement order.
\<close>

theorem loadSchemaFromDir_table_order:
  assumes "ReadDir env dir = Inr entries"
    and "\<forall>e \<in> set entries. is_schema_file e"
    and "loadSchemaFromDir env dir = Inr schema"
  shows "Tables schema =
           concat (map (file_tables env) (sort (map (\<lambda>e. PathJoin env dir (EntryName e)) entries)))
       \<and> (\<forall>path \<in> set (map (\<lambda>e. PathJoin env dir (EntryName e)) entries).
            \<exists>data stmts. ReadFile env path = Inr data \<and> Parse env data = Inr stmts
              \<and> map relation_of (file_tables env path) = created_relations stmts)"
proof -
  define files where "files = map (\<lambda>e. PathJoin env dir (EntryName e)) entries"
  from assms(2) have c: "collectSqlFiles env dir entries = files"
    by (simp add: collectSqlFiles_eq files_def filter_id_conv)
  from assms(1,3) c obtain allTables where
    l: "loadTables env [] (sort files) = Inr allTables"
    and s: "schema = \<lparr>Tables = allTables, Dialect = DialectPostgres\<rparr>"
    by (auto simp: loadSchemaFromDir_def Let_def split: if_splits sum.splits option.splits)
  from loadTables_eq [OF l] s have t: "Tables schema = concat (map (file_tables env) (sort files))"
    by simp
  have "\<exists>data stmts. ReadFile env path = Inr data \<and> Parse env data = Inr stmts
              \<and> map relation_of (file_tables env path) = created_relations stmts"
    if "path \<in> set files" for path
  proof -
    from that have "path \<in> set (sort files)" by simp
    from loadTables_files [OF l this] obtain data sch where
      r: "ReadFile env path = Inr data"
      and p: "ParseSQLSchemaWithDialectAndFilename (Parse env) data DialectPostgres path = Inr sch"
      by blast
    from p obtain stmts where
      ps: "Parse env data = Inr stmts"
      and w: "walkStmts \<lparr>ctx_sql = data, ctx_filename = path\<rparr>
                \<lparr>Tables = [], Dialect = DialectPostgres\<rparr> stmts = Inr sch"
      by (auto simp: ParseSQLSchemaWithDialectAndFilename_def parsePostgresSQLSchemaWithFilename_def
          split: sum.splits)
    from walkStmts_relations [OF w] have "map relation_of (Tables sch) = created_relations stmts"
      by simp
    moreover from r p have "file_tables env path = Tables sch"
      by (simp add: file_tables_def)
    ultimately show ?thesis
      using r ps by simp
  qed
  with t show ?thesis
    unfolding files_def by blast
qed


theorem loadSchemaFromDir_table_order_witness:
  "ReadDir example_env ''schema'' = Inr schema_entries
   \<and> list_all is_schema_file schema_entries
   \<and> loadSchemaFromDir example_env ''schema'' = Inr example_schema
   \<and> map (\<lambda>e. PathJoin example_env ''schema'' (EntryName e)) schema_entries
       = [''schema/users.LP.SQL'', ''schema/posts.lp.sql'']
   \<and> sort [''schema/users.LP.SQL'', ''schema/posts.lp.sql'']
       = [''schema/posts.lp.sql'', ''schema/users.LP.SQL'']
   \<and> map relation_of (Tables example_schema) = [([], ''posts''), (''auth'', ''users''), ([], ''users'')]
   \<and> concat (map (file_tables example_env) [''schema/posts.lp.sql'', ''schema/users.LP.SQL''])
       = Tables example_schema"
proof -
  have d: "ReadDir example_env ''schema'' = Inr schema_entries"
    by (simp add: example_env_def)
  have a: "list_all is_schema_file schema_entries"
    by code_simp
  then have b: "\<forall>e \<in> set schema_entries. is_schema_file e"
    by (simp add: list_all_iff)
  have l: "loadSchemaFromDir example_env ''schema'' = Inr example_schema"
    by code_simp
  have p: "map (\<lambda>e. PathJoin example_env ''schema'' (EntryName e)) schema_entries
       = [''schema/users.LP.SQL'', ''schema/posts.lp.sql'']"
    by (simp add: example_env_def schema_entries_def)
  have s: "sort [''schema/users.LP.SQL'', ''schema/posts.lp.sql'']
       = [''schema/posts.lp.sql'', ''schema/users.LP.SQL'']"
    by code_simp
  have r: "map relation_of (Tables example_schema) = [([], ''posts''), (''auth'', ''users''), ([], ''users'')]"
    by (simp add: example_schema_def relation_of_def)
  from loadSchemaFromDir_table_order [OF d b l] d a l p s r show ?thesis
    by simp
qed

subsection \<open>Input selection\<close>

text \<open>
  Claim C8. A path that is not a directory and does not end in \<^verbatim>\<open>.lp.sql\<close>, whatever the
  case of its letters, makes the load fail with an error and no schema; a directory
  whose entries include no schema file makes it fail with the error
  \<^verbatim>\<open>no .lp.sql files found in directory\<close> followed by the directory's path.
\<close>

theorem LoadSchema_input_selection:
  "(Stat env path \<noteq> Inr True \<and> \<not> HasSuffix (ToLower path) ''.lp.sql''
      \<longrightarrow> LoadSchema env path = Inl ''did not find .lp.sql file(s)'')
   \<and> (Stat env path = Inr True \<and> ReadDir env path = Inr entries
        \<and> (\<forall>e \<in> set entries. \<not> is_schema_file e)
      \<longrightarrow> LoadSchema env path = Inl (''no .lp.sql files found in directory '' @ path))"
proof (intro conjI impI)
  assume "Stat env path \<noteq> Inr True \<and> \<not> HasSuffix (ToLower path) ''.lp.sql''"
  then show "LoadSchema env path = Inl ''did not find .lp.sql file(s)''"
    by (auto simp: LoadSchema_def split: sum.splits)
next
  assume a: "Stat env path = Inr True \<and> ReadDir env path = Inr entries
        \<and> (\<forall>e \<in> set entries. \<not> is_schema_file e)"
  then have "collectSqlFiles env path entries = []"
    by (simp add: collectSqlFiles_eq filter_empty_conv)
  with a show "LoadSchema env path = Inl (''no .lp.sql files found in directory '' @ path)"
    by (simp add: LoadSchema_def loadSchemaFromDir_def)
qed


theorem LoadSchema_input_selection_witness:
  "Stat example_env ''notes.sql'' \<noteq> Inr True
   \<and> \<not> HasSuffix (ToLower ''notes.sql'') ''.lp.sql''
   \<and> LoadSchema example_env ''notes.sql'' = Inl ''did not find .lp.sql file(s)''
   \<and> Stat example_env ''empty'' = Inr True
   \<and> ReadDir example_env ''empty'' = Inr empty_entries
   \<and> list_all (\<lambda>e. \<not> is_schema_file e) empty_entries
   \<and> LoadSchema example_env ''empty'' = Inl ''no .lp.sql files found in directory empty''"
proof -
  have f: "Stat example_env ''notes.sql'' \<noteq> Inr True"
    "Stat example_env ''empty'' = Inr True"
    "ReadDir example_env ''empty'' = Inr empty_entries"
    by (simp_all add: example_env_def)
  have h: "\<not> HasSuffix (ToLower ''notes.sql'') ''.lp.sql''"
    by code_simp
  have a: "list_all (\<lambda>e. \<not> is_schema_file e) empty_entries"
    by code_simp
  then have b: "\<forall>e \<in> set empty_entries. \<not> is_schema_file e"
    by (simp add: list_all_iff)
  from LoadSchema_input_selection [of example_env "''notes.sql''" empty_entries]
    LoadSchema_input_selection [of example_env "''empty''" empty_entries] f h a b
  show ?thesis by simp
qed

subsection \<open>The Check Pipeline\<close>

text \<open>The matcher of the model finds a match exactly when there is one, and the match it
  returns is the leftmost one, with the longest last group.\<close>

lemma set_map_filter: "set (List.map_filter f xs) = {y. \<exists>x \<in> set xs. f x = Some y}"
  by (induction xs) (auto simp: List.map_filter_simps split: option.splits)

lemma matchHere_sound:
  "matchHere items s = Some (groups, rest) \<Longrightarrow> item_match items s groups rest"
proof (induction items arbitrary: s groups rest)
  case Nil
  then show ?case by simp
next
  case (Cons item items)
  show ?case
  proof (cases item)
    case (Lit c)
    with Cons.prems obtain s' where "s = c # s'" "matchHere items s' = Some (groups, rest)"
      by (auto split: list.splits if_splits)
    with Cons.IH Lit show ?thesis by simp
  next
    case (PlusGroup cls)
    define f where "f = (\<lambda>n. case matchHere items (drop n s) of
                    None \<Rightarrow> None
                  | Some (groups, rest) \<Rightarrow> Some (take n s # groups, rest))"
    define cands where "cands = rev [1..<Suc (length (takeWhile cls s))]"
    from Cons.prems PlusGroup have "(groups, rest) \<in> set (List.map_filter f cands)"
      by (auto simp del: upt_Suc simp add: f_def cands_def split: list.splits)
    then obtain n where n: "n \<in> set cands" "f n = Some (groups, rest)"
      by (auto simp: set_map_filter)
    from n(2) obtain groups' where m: "matchHere items (drop n s) = Some (groups', rest)"
      and g: "groups = take n s # groups'"
      by (auto simp: f_def split: option.splits)
    from n(1) have r: "1 \<le> n" "n \<le> length (takeWhile cls s)"
      by (auto simp del: upt_Suc simp add: cands_def)
    then have "take n s = take n (takeWhile cls s)"
      by (metis append_eq_conv_conj takeWhile_dropWhile_id take_all take_append diff_is_0_eq' append_Nil2 take_0)
    then have "\<forall>c \<in> set (take n s). cls c"
      by (metis in_set_takeD set_takeWhileD)
    moreover from r have "take n s \<noteq> []"
      by (cases s) auto
    moreover have "s = take n s @ drop n s" by simp
    ultimately show ?thesis
      using Cons.IH [OF m] g PlusGroup by (simp, blast)
  qed
qed

lemma matchHere_complete:
  "item_match items s groups rest \<Longrightarrow> \<exists>r. matchHere items s = Some r"
proof (induction items arbitrary: s groups rest)
  case Nil
  then show ?case by simp
next
  case (Cons item items)
  show ?case
  proof (cases item)
    case (Lit c)
    with Cons show ?thesis by auto
  next
    case (PlusGroup cls)
    with Cons.prems obtain g groups' s' where
      g: "g \<noteq> []" "\<forall>c \<in> set g. cls c" "s = g @ s'" "item_match items s' groups' rest"
      by auto
    from Cons.IH [OF g(4)] obtain r where r: "matchHere items s' = Some r" by blast
    define f where "f = (\<lambda>n. case matchHere items (drop n s) of
                    None \<Rightarrow> None
                  | Some (groups, rest) \<Rightarrow> Some (take n s # groups, rest))"
    define cands where "cands = rev [1..<Suc (length (takeWhile cls s))]"
    from g(2,3) have "takeWhile cls s = g @ takeWhile cls s'"
      by (simp add: takeWhile_append2)
    with g(1) have "length g \<in> set cands"
      by (cases g) (auto simp del: upt_Suc simp add: cands_def)
    moreover from r g(3) have "f (length g) \<noteq> None"
      by (auto simp: f_def split: prod.splits)
    ultimately obtain y where "length g \<in> set cands" "f (length g) = Some y"
      by blast
    then have "y \<in> set (List.map_filter f cands)"
      unfolding set_map_filter by blast
    then have "List.map_filter f cands \<noteq> []"
      by auto
    then show ?thesis
      using PlusGroup by (auto simp del: upt_Suc simp add: f_def cands_def split: list.splits)
  qed
qed

lemma matchHere_rest:
  "item_match items s groups rest \<Longrightarrow> \<exists>m. s = m @ rest"
proof (induction items arbitrary: s groups)
  case Nil
  then show ?case by simp
next
  case (Cons item items)
  then show ?case
    by (cases item) (auto, (metis append_Cons append_assoc)+)
qed

lemma FindStringSubmatch_sound:
  "FindStringSubmatch re s = m # groups \<Longrightarrow>
     \<exists>pre rest. s = pre @ m @ rest \<and> matchHere re (m @ rest) = Some (groups, rest)
        \<and> (\<forall>p q g r. s = p @ q \<and> length p < length pre \<longrightarrow> \<not> item_match re q g r)"
proof (induction s arbitrary: m groups)
  case Nil
  show ?case
  proof (cases "matchHere re []")
    case None
    with Nil show ?thesis by simp
  next
    case (Some a)
    obtain g r where a: "a = (g, r)" by (cases a)
    from matchHere_rest [OF matchHere_sound [OF Some [unfolded a]]] have "r = []" by auto
    with Nil Some a show ?thesis by auto
  qed
next
  case (Cons x xs)
  show ?case
  proof (cases "matchHere re (x # xs)")
    case None
    with Cons.prems have f: "FindStringSubmatch re xs = m # groups" by simp
    from Cons.IH [OF f] obtain pre rest where
      p: "xs = pre @ m @ rest" "matchHere re (m @ rest) = Some (groups, rest)"
      "\<forall>p q g r. xs = p @ q \<and> length p < length pre \<longrightarrow> \<not> item_match re q g r"
      by blast
    have "\<not> item_match re q g r" if "x # xs = p @ q" "length p < length (x # pre)" for p q g r
    proof (cases p)
      case Nil
      with that have "q = x # xs" by simp
      with None matchHere_complete show ?thesis by fastforce
    next
      case (Cons y p')
      with that have "xs = p' @ q" "length p' < length pre" by auto
      with p(3) show ?thesis by blast
    qed
    with p(1,2) show ?thesis
      by (intro exI [of _ "x # pre"] exI [of _ rest]) simp
  next
    case (Some a)
    obtain g r where a: "a = (g, r)" by (cases a)
    from matchHere_rest [OF matchHere_sound [OF Some [unfolded a]]]
    obtain w where w: "x # xs = w @ r" by blast
    then have "take (length (x # xs) - length r) (x # xs) = w"
      by (metis append_eq_conv_conj length_append add_diff_cancel_right')
    with Cons.prems Some a have mg: "m = w" "groups = g" by auto
    from Some a w have "matchHere re (w @ r) = Some (g, r)" by simp
    with mg w show ?thesis
      by (intro exI [of _ "[]"] exI [of _ r]) simp
  qed
qed

lemma FindStringSubmatch_complete:
  "s = p @ q \<Longrightarrow> item_match re q g r \<Longrightarrow> FindStringSubmatch re s \<noteq> []"
proof (induction p arbitrary: s)
  case Nil
  with matchHere_complete [of re q g r] show ?case by auto
next
  case (Cons x p)
  from Cons.prems have "s = x # (p @ q)" by simp
  moreover from Cons.IH [OF refl Cons.prems(2)] have "FindStringSubmatch re (p @ q) \<noteq> []" .
  ultimately show ?case
    by (cases "matchHere re s") auto
qed

lemma item_match_plus_last:
  "item_match [PlusGroup cls] s groups rest \<longleftrightarrow>
     (\<exists>g. g \<noteq> [] \<and> (\<forall>c \<in> set g. cls c) \<and> s = g @ rest \<and> groups = [g])"
  by auto

lemma item_match_plus_lit:
  "item_match (PlusGroup cls # Lit c # items) s groups rest \<longleftrightarrow>
     (\<exists>g groups' s'. g \<noteq> [] \<and> (\<forall>c \<in> set g. cls c) \<and> s = g @ c # s' \<and> groups = g # groups'
        \<and> item_match items s' groups' rest)"
  by auto

lemma fileLoc_match:
  "item_match fileLocPattern s groups rest \<longleftrightarrow>
     (\<exists>path line col. groups = [path, line, col] \<and> s = path @ '':'' @ line @ '':'' @ col @ rest
        \<and> path \<noteq> [] \<and> CHR '':'' \<notin> set path
        \<and> line \<noteq> [] \<and> (\<forall>c \<in> set line. isDigit c)
        \<and> col \<noteq> [] \<and> (\<forall>c \<in> set col. isDigit c))"
proof
  assume "item_match fileLocPattern s groups rest"
  then obtain path g1 s1 where
    1: "path \<noteq> []" "\<forall>c \<in> set path. c \<noteq> CHR '':''" "s = path @ CHR '':'' # s1" "groups = path # g1"
    and m1: "item_match [PlusGroup isDigit, Lit CHR '':'', PlusGroup isDigit] s1 g1 rest"
    unfolding fileLocPattern_def item_match_plus_lit by blast
  from m1 obtain line g2 s2 where
    2: "line \<noteq> []" "\<forall>c \<in> set line. isDigit c" "s1 = line @ CHR '':'' # s2" "g1 = line # g2"
    and m2: "item_match [PlusGroup isDigit] s2 g2 rest"
    unfolding item_match_plus_lit by blast
  from m2 obtain col where
    3: "col \<noteq> []" "\<forall>c \<in> set col. isDigit c" "s2 = col @ rest" "g2 = [col]"
    unfolding item_match_plus_last by blast
  have g: "groups = [path, line, col]"
    by (simp add: 1(4) 2(4) 3(4))
  have e: "s = path @ '':'' @ line @ '':'' @ col @ rest"
    by (simp add: 1(3) 2(3) 3(3))
  from 1(2) have c: "CHR '':'' \<notin> set path"
    by blast
  from g e c 1(1) 2(1,2) 3(1,2)
  show "\<exists>path line col. groups = [path, line, col] \<and> s = path @ '':'' @ line @ '':'' @ col @ rest
        \<and> path \<noteq> [] \<and> CHR '':'' \<notin> set path
        \<and> line \<noteq> [] \<and> (\<forall>c \<in> set line. isDigit c)
        \<and> col \<noteq> [] \<and> (\<forall>c \<in> set col. isDigit c)"
    by blast
next
  assume "\<exists>path line col. groups = [path, line, col] \<and> s = path @ '':'' @ line @ '':'' @ col @ rest
        \<and> path \<noteq> [] \<and> CHR '':'' \<notin> set path
        \<and> line \<noteq> [] \<and> (\<forall>c \<in> set line. isDigit c)
        \<and> col \<noteq> [] \<and> (\<forall>c \<in> set col. isDigit c)"
  then obtain path line col where
    g: "groups = [path, line, col]" "s = path @ '':'' @ line @ '':'' @ col @ rest"
    "path \<noteq> []" "CHR '':'' \<notin> set path" "line \<noteq> []" "\<forall>c \<in> set line. isDigit c"
    "col \<noteq> []" "\<forall>c \<in> set col. isDigit c"
    by blast
  have m2: "item_match [PlusGroup isDigit] (col @ rest) [col] rest"
    unfolding item_match_plus_last using g by blast
  have m1: "item_match [PlusGroup isDigit, Lit CHR '':'', PlusGroup isDigit]
              (line @ CHR '':'' # col @ rest) [line, col] rest"
    unfolding item_match_plus_lit using g m2 by blast
  from g(4) have c: "\<forall>c \<in> set path. c \<noteq> CHR '':''"
    by blast
  have "\<exists>g groups' s'. g \<noteq> [] \<and> (\<forall>c \<in> set g. c \<noteq> CHR '':'')
      \<and> path @ CHR '':'' # line @ CHR '':'' # col @ rest = g @ CHR '':'' # s'
      \<and> [path, line, col] = g # groups'
      \<and> item_match [PlusGroup isDigit, Lit CHR '':'', PlusGroup isDigit] s' groups' rest"
    using g(3) c m1
    by (intro exI [of _ path] exI [of _ "[line, col]"] exI [of _ "line @ CHR '':'' # col @ rest"])
       (simp del: item_match.simps)
  then have "item_match fileLocPattern (path @ CHR '':'' # line @ CHR '':'' # col @ rest) [path, line, col] rest"
    unfolding fileLocPattern_def item_match_plus_lit .
  moreover have "s = path @ CHR '':'' # line @ CHR '':'' # col @ rest"
    by (simp add: g(2))
  ultimately show "item_match fileLocPattern s groups rest"
    by (simp only: g(1))
qed

lemma line_match:
  "item_match linePattern s groups rest \<longleftrightarrow>
     (\<exists>n. groups = [n] \<and> s = ''line '' @ n @ rest \<and> n \<noteq> [] \<and> (\<forall>c \<in> set n. isDigit c))"
proof -
  have "item_match linePattern s groups rest \<longleftrightarrow>
      (\<exists>s'. s = ''line '' @ s' \<and> item_match [PlusGroup isDigit] s' groups rest)"
    by (auto simp: linePattern_def)
  then show ?thesis
    unfolding item_match_plus_last by auto
qed


lemma fileLoc_found_iff:
  "length (FindStringSubmatch fileLocPattern s) = 4 \<longleftrightarrow> has_path_line_col s"
proof
  assume l: "length (FindStringSubmatch fileLocPattern s) = 4"
  then obtain m groups where f: "FindStringSubmatch fileLocPattern s = m # groups"
    by (cases "FindStringSubmatch fileLocPattern s") auto
  from FindStringSubmatch_sound [OF f] obtain pre rest where
    "s = pre @ m @ rest" "item_match fileLocPattern (m @ rest) groups rest"
    by (blast dest: matchHere_sound)
  then show "has_path_line_col s"
    unfolding fileLoc_match has_path_line_col_def by (metis append_assoc)
next
  assume "has_path_line_col s"
  then obtain pre path line col post where
    d: "s = pre @ path @ '':'' @ line @ '':'' @ col @ post"
    "path \<noteq> []" "CHR '':'' \<notin> set path" "line \<noteq> []" "\<forall>c \<in> set line. isDigit c"
    "col \<noteq> []" "\<forall>c \<in> set col. isDigit c"
    unfolding has_path_line_col_def by blast
  then have i: "item_match fileLocPattern (path @ '':'' @ line @ '':'' @ col @ post) [path, line, col] post"
    unfolding fileLoc_match by blast
  from FindStringSubmatch_complete [OF d(1) i] obtain m groups where
    f: "FindStringSubmatch fileLocPattern s = m # groups"
    by (cases "FindStringSubmatch fileLocPattern s") auto
  from FindStringSubmatch_sound [OF f] obtain rest where
    "item_match fileLocPattern (m @ rest) groups rest"
    by (blast dest: matchHere_sound)
  then have "length groups = 3"
    unfolding fileLoc_match by auto
  with f show "length (FindStringSubmatch fileLocPattern s) = 4"
    by simp
qed

lemma line_found_iff:
  "length (FindStringSubmatch linePattern s) = 2 \<longleftrightarrow> has_line_number s"
proof
  assume l: "length (FindStringSubmatch linePattern s) = 2"
  then obtain m groups where f: "FindStringSubmatch linePattern s = m # groups"
    by (cases "FindStringSubmatch linePattern s") auto
  from FindStringSubmatch_sound [OF f] obtain pre rest where
    "s = pre @ m @ rest" "item_match linePattern (m @ rest) groups rest"
    by (blast dest: matchHere_sound)
  then show "has_line_number s"
    unfolding line_match has_line_number_def by (metis append_assoc)
next
  assume "has_line_number s"
  then obtain pre n post where
    d: "s = pre @ ''line '' @ n @ post" "n \<noteq> []" "\<forall>c \<in> set n. isDigit c"
    unfolding has_line_number_def by blast
  then have i: "item_match linePattern (''line '' @ n @ post) [n] post"
    unfolding line_match by blast
  from FindStringSubmatch_complete [OF d(1) i] obtain m groups where
    f: "FindStringSubmatch linePattern s = m # groups"
    by (cases "FindStringSubmatch linePattern s") auto
  from FindStringSubmatch_sound [OF f] obtain rest where
    "item_match linePattern (m @ rest) groups rest"
    by (blast dest: matchHere_sound)
  then have "length groups = 1"
    unfolding line_match by auto
  with f show "length (FindStringSubmatch linePattern s) = 2"
    by simp
qed

lemma matchHere_greedy_last:
  "matchHere (items @ [PlusGroup cls]) s = Some (groups, rest) \<Longrightarrow> rest = [] \<or> \<not> cls (hd rest)"
proof (induction items arbitrary: s groups)
  case Nil
  define k where "k = length (takeWhile cls s)"
  have f: "(\<lambda>n. case matchHere [] (drop n s) of None \<Rightarrow> None
                | Some (groups, rest) \<Rightarrow> Some (take n s # groups, rest))
           = (\<lambda>n. Some ([take n s], drop n s))"
    by (rule ext) simp
  show ?case
  proof (cases k)
    case 0
    with Nil show ?thesis
      by (simp add: k_def List.map_filter_simps)
  next
    case (Suc j)
    then have "rev [1..<Suc k] = k # rev [1..<k]"
      by simp
    with Nil have "rest = drop k s"
      by (simp add: f k_def [symmetric] List.map_filter_simps del: upt_Suc)
    then have "rest = dropWhile cls s"
      by (metis k_def append_eq_conv_conj takeWhile_dropWhile_id)
    then show ?thesis
      by (metis hd_dropWhile)
  qed
next
  case (Cons item items)
  show ?case
  proof (cases item)
    case (Lit c)
    with Cons show ?thesis
      by (auto split: list.splits if_splits)
  next
    case (PlusGroup c)
    define f where "f = (\<lambda>n. case matchHere (items @ [PlusGroup cls]) (drop n s) of
                    None \<Rightarrow> None
                  | Some (groups, rest) \<Rightarrow> Some (take n s # groups, rest))"
    define cands where "cands = rev [1..<Suc (length (takeWhile c s))]"
    from Cons.prems PlusGroup have "(groups, rest) \<in> set (List.map_filter f cands)"
      by (auto simp del: upt_Suc simp add: f_def cands_def split: list.splits)
    then obtain n where "f n = Some (groups, rest)"
      by (auto simp: set_map_filter)
    then obtain groups' where "matchHere (items @ [PlusGroup cls]) (drop n s) = Some (groups', rest)"
      by (auto simp: f_def split: option.splits)
    from Cons.IH [OF this] show ?thesis .
  qed
qed

lemma fileLoc_groups:
  assumes "has_path_line_col s"
  shows "\<exists>pre path line col post.
           FindStringSubmatch fileLocPattern s = [path @ '':'' @ line @ '':'' @ col, path, line, col]
           \<and> s = pre @ path @ '':'' @ line @ '':'' @ col @ post
           \<and> path \<noteq> [] \<and> CHR '':'' \<notin> set path
           \<and> line \<noteq> [] \<and> (\<forall>c \<in> set line. isDigit c)
           \<and> col \<noteq> [] \<and> (\<forall>c \<in> set col. isDigit c)
           \<and> (post = [] \<or> \<not> isDigit (hd post))
           \<and> (\<forall>p q groups rest. s = p @ q \<and> item_match fileLocPattern q groups rest
                 \<longrightarrow> length pre \<le> length p)"
proof -
  from assms fileLoc_found_iff have "length (FindStringSubmatch fileLocPattern s) = 4"
    by blast
  then obtain m groups where f: "FindStringSubmatch fileLocPattern s = m # groups"
    by (cases "FindStringSubmatch fileLocPattern s") auto
  from FindStringSubmatch_sound [OF f] obtain pre rest where
    p1: "s = pre @ m @ rest" and q: "matchHere fileLocPattern (m @ rest) = Some (groups, rest)"
    and p3: "\<forall>p q g r. s = p @ q \<and> length p < length pre \<longrightarrow> \<not> item_match fileLocPattern q g r"
    by blast
  from matchHere_sound [OF q] have p2: "item_match fileLocPattern (m @ rest) groups rest" .
  note p = p1 p2 p3
  from q have "matchHere ([PlusGroup (\<lambda>c. c \<noteq> CHR '':''), Lit CHR '':'', PlusGroup isDigit, Lit CHR '':'']
      @ [PlusGroup isDigit]) (m @ rest) = Some (groups, rest)"
    by (simp add: fileLocPattern_def)
  from matchHere_greedy_last [OF this] have gr: "rest = [] \<or> \<not> isDigit (hd rest)" .
  from p(2) obtain path line col where
    g: "groups = [path, line, col]" "m @ rest = path @ '':'' @ line @ '':'' @ col @ rest"
    "path \<noteq> []" "CHR '':'' \<notin> set path" "line \<noteq> []" "\<forall>c \<in> set line. isDigit c"
    "col \<noteq> []" "\<forall>c \<in> set col. isDigit c"
    unfolding fileLoc_match by blast
  from g(2) have m: "m = path @ '':'' @ line @ '':'' @ col"
    by simp
  have "length pre \<le> length p'" if "s = p' @ q'" "item_match fileLocPattern q' g' r'" for p' q' g' r'
  proof (rule ccontr)
    assume "\<not> length pre \<le> length p'"
    then have "length p' < length pre" by simp
    with p3 that show False by blast
  qed
  then have left: "\<forall>p q groups rest. s = p @ q \<and> item_match fileLocPattern q groups rest
                 \<longrightarrow> length pre \<le> length p"
    by blast
  have e: "s = pre @ path @ '':'' @ line @ '':'' @ col @ rest"
    using p(1) m by simp
  have r: "FindStringSubmatch fileLocPattern s = [path @ '':'' @ line @ '':'' @ col, path, line, col]"
    using f g(1) m by (simp only:)
  from r e g(3-8) gr left show ?thesis
    by blast
qed

lemma line_groups:
  assumes "has_line_number s"
  shows "\<exists>pre n post.
           FindStringSubmatch linePattern s = [''line '' @ n, n]
           \<and> s = pre @ ''line '' @ n @ post
           \<and> n \<noteq> [] \<and> (\<forall>c \<in> set n. isDigit c)
           \<and> (post = [] \<or> \<not> isDigit (hd post))
           \<and> (\<forall>p q groups rest. s = p @ q \<and> item_match linePattern q groups rest
                 \<longrightarrow> length pre \<le> length p)"
proof -
  from assms line_found_iff have "length (FindStringSubmatch linePattern s) = 2"
    by blast
  then obtain m groups where f: "FindStringSubmatch linePattern s = m # groups"
    by (cases "FindStringSubmatch linePattern s") auto
  from FindStringSubmatch_sound [OF f] obtain pre rest where
    p1: "s = pre @ m @ rest" and q: "matchHere linePattern (m @ rest) = Some (groups, rest)"
    and p3: "\<forall>p q g r. s = p @ q \<and> length p < length pre \<longrightarrow> \<not> item_match linePattern q g r"
    by blast
  from matchHere_sound [OF q] have p2: "item_match linePattern (m @ rest) groups rest" .
  from q have "matchHere (map Lit ''line '' @ [PlusGroup isDigit]) (m @ rest) = Some (groups, rest)"
    by (simp only: linePattern_def)
  from matchHere_greedy_last [OF this] have gr: "rest = [] \<or> \<not> isDigit (hd rest)" .
  from p2 obtain n where
    g: "groups = [n]" "m @ rest = ''line '' @ n @ rest" "n \<noteq> []" "\<forall>c \<in> set n. isDigit c"
    unfolding line_match by blast
  from g(2) have m: "m = ''line '' @ n"
    by simp
  have "length pre \<le> length p'" if "s = p' @ q'" "item_match linePattern q' g' r'" for p' q' g' r'
  proof (rule ccontr)
    assume "\<not> length pre \<le> length p'"
    then have "length p' < length pre" by simp
    with p3 that show False by blast
  qed
  then have left: "\<forall>p q groups rest. s = p @ q \<and> item_match linePattern q groups rest
                 \<longrightarrow> length pre \<le> length p"
    by blast
  have e: "s = pre @ ''line '' @ n @ rest"
    using p1 m by simp
  have r: "FindStringSubmatch linePattern s = [''line '' @ n, n]"
    using f g(1) m by (simp only:)
  from r e g(3,4) gr left show ?thesis
    by blast
qed

lemma error_location_code:
  "error_location errMsg path =
     (let m = FindStringSubmatch fileLocPattern errMsg;
          l = FindStringSubmatch linePattern errMsg
      in if length m = 4 then (m ! 1, Atoi (m ! 2), Atoi (m ! 3))
         else if length l = 2 then (path, Atoi (l ! 1), 1)
         else (path, 1, 1))"
  by (simp only: error_location_def fileLoc_found_iff line_found_iff Let_def)

lemma foldl_addDiagnostic:
  "foldl addDiagnostic out ds =
     \<lparr>Diagnostics = Diagnostics out @ ds,
      Summary = \<lparr>Errors = Errors (Summary out) + int (length ds),
                 Warnings = Warnings (Summary out),
                 Valid = (Valid (Summary out) \<and> ds = [])\<rparr>\<rparr>"
proof (induction ds arbitrary: out)
  case Nil
  show ?case by simp
next
  case (Cons d ds)
  show ?case
    by (simp only: foldl_Cons Cons.IH) (simp add: addDiagnostic_def)
qed

lemma severity_occurrenceDiagnostics:
  "d \<in> set (occurrenceDiagnostics quote schema key i idxs) \<Longrightarrow> Severity d = ''error''"
  by (induction idxs arbitrary: i) (auto simp: Let_def split: option.splits)

lemma severity_duplicates:
  "d \<in> set (ValidateDuplicateTablesAsDiagnostics quote order schema) \<Longrightarrow> Severity d = ''error''"
  by (auto simp: ValidateDuplicateTablesAsDiagnostics_def dest: severity_occurrenceDiagnostics)


text \<open>
  Claim C6. When loading fails, the report that is encoded holds exactly one diagnostic,
  an error located by \<open>error_location\<close> (at the first \<^verbatim>\<open>path:line:col\<close> of the error text,
  else at its first \<^verbatim>\<open>line N\<close>, else at line 1, column 1 of the input path), one counted error and a cleared validity flag.
  When loading succeeds, it holds the diagnostics of the Duplicate Validator, all of them
  errors, their number as the error count, and a validity flag that is set only if there
  are none. \<^verbatim>\<open>CheckSchema\<close> returns the encoded report in both cases: it returns an error
  only if the encoder does.
\<close>

theorem CheckSchema_report:
  "(loadSchemaWithoutValidation env path = Inl err \<longrightarrow>
      CheckSchema env path =
        marshalOutput env
          \<lparr>Diagnostics = [parseErrorToDiagnostic err path],
           Summary = \<lparr>Errors = 1, Warnings = 0, Valid = False\<rparr>\<rparr>
      \<and> Severity (parseErrorToDiagnostic err path) = ''error''
      \<and> (DFile (parseErrorToDiagnostic err path), DLine (parseErrorToDiagnostic err path),
          DColumn (parseErrorToDiagnostic err path)) = error_location err path)
   \<and> (loadSchemaWithoutValidation env path = Inr schema \<longrightarrow>
      CheckSchema env path =
        marshalOutput env
          \<lparr>Diagnostics = ValidateDuplicateTablesAsDiagnostics (Quote env) (RangeOrder env) schema,
           Summary =
             \<lparr>Errors = int (length (ValidateDuplicateTablesAsDiagnostics (Quote env) (RangeOrder env) schema)),
              Warnings = 0,
              Valid = (ValidateDuplicateTablesAsDiagnostics (Quote env) (RangeOrder env) schema = [])\<rparr>\<rparr>
      \<and> (\<forall>d \<in> set (ValidateDuplicateTablesAsDiagnostics (Quote env) (RangeOrder env) schema).
            Severity d = ''error''))
   \<and> ((\<forall>output. \<exists>json. MarshalIndent env output = Inr json) \<longrightarrow>
        (\<exists>json. CheckSchema env path = Inr json))"
proof (intro conjI impI)
  assume "loadSchemaWithoutValidation env path = Inl err"
  then show "CheckSchema env path =
        marshalOutput env
          \<lparr>Diagnostics = [parseErrorToDiagnostic err path],
           Summary = \<lparr>Errors = 1, Warnings = 0, Valid = False\<rparr>\<rparr>"
    by (simp add: CheckSchema_def NewCheckOutput_def addDiagnostic_def)
next
  show "Severity (parseErrorToDiagnostic err path) = ''error''"
    by (simp add: parseErrorToDiagnostic_def Let_def)
next
  show "(DFile (parseErrorToDiagnostic err path), DLine (parseErrorToDiagnostic err path),
          DColumn (parseErrorToDiagnostic err path)) = error_location err path"
    by (simp add: parseErrorToDiagnostic_def error_location_code Let_def)
next
  assume "loadSchemaWithoutValidation env path = Inr schema"
  then show "CheckSchema env path =
        marshalOutput env
          \<lparr>Diagnostics = ValidateDuplicateTablesAsDiagnostics (Quote env) (RangeOrder env) schema,
           Summary =
             \<lparr>Errors = int (length (ValidateDuplicateTablesAsDiagnostics (Quote env) (RangeOrder env) schema)),
              Warnings = 0,
              Valid = (ValidateDuplicateTablesAsDiagnostics (Quote env) (RangeOrder env) schema = [])\<rparr>\<rparr>"
    by (simp add: CheckSchema_def NewCheckOutput_def foldl_addDiagnostic Let_def)
next
  show "\<forall>d \<in> set (ValidateDuplicateTablesAsDiagnostics (Quote env) (RangeOrder env) schema).
            Severity d = ''error''"
    by (blast dest: severity_duplicates)
next
  assume m: "\<forall>output. \<exists>json. MarshalIndent env output = Inr json"
  have "\<exists>json. marshalOutput env out = Inr json" for out
    using m [rule_format, of out] by (auto simp: marshalOutput_def)
  then show "\<exists>json. CheckSchema env path = Inr json"
    by (auto simp: CheckSchema_def Let_def split: sum.splits)
qed

theorem CheckSchema_report_witness:
  "loadSchemaWithoutValidation example_env ''broken.lp.sql''
     = Inl ''failed to parse SQL DDL: failed to parse SQL: syntax error at end of input''
   \<and> CheckSchema example_env ''broken.lp.sql'' = Inr ''errors: 1''
   \<and> loadSchemaWithoutValidation example_env ''dup.lp.sql'' = Inr dup_schema
   \<and> length (ValidateDuplicateTablesAsDiagnostics double_quoted rev dup_schema) = 2
   \<and> CheckSchema example_env ''dup.lp.sql'' = Inr ''errors: 2''
   \<and> (\<forall>out. \<exists>json. MarshalIndent example_env out = Inr json)
   \<and> error_location ''users.lp.sql:3:7: unexpected token'' ''schema'' = (''users.lp.sql'', 3, 7)
   \<and> error_location ''syntax error at line 12'' ''schema'' = (''schema'', 12, 1)
   \<and> error_location ''syntax error at end of input'' ''schema'' = (''schema'', 1, 1)"
proof -
  have b: "loadSchemaWithoutValidation example_env ''broken.lp.sql''
     = Inl ''failed to parse SQL DDL: failed to parse SQL: syntax error at end of input''"
    by code_simp
  have d: "loadSchemaWithoutValidation example_env ''dup.lp.sql'' = Inr dup_schema"
    by code_simp
  have n: "length (ValidateDuplicateTablesAsDiagnostics double_quoted rev dup_schema) = 2"
    by code_simp
  have e: "error_location ''users.lp.sql:3:7: unexpected token'' ''schema'' = (''users.lp.sql'', 3, 7)"
    "error_location ''syntax error at line 12'' ''schema'' = (''schema'', 12, 1)"
    "error_location ''syntax error at end of input'' ''schema'' = (''schema'', 1, 1)"
    unfolding error_location_code by code_simp+
  have m: "marshalOutput example_env out = Inr (''errors: '' @ show_int (Errors (Summary out)))" for out
    by (simp add: marshalOutput_def example_env_def)
  have q: "Quote example_env = double_quoted" "RangeOrder example_env = rev"
    "\<forall>out. \<exists>json. MarshalIndent example_env out = Inr json"
    by (simp_all add: example_env_def)
  have s: "show_int 1 = ''1''" "show_int 2 = ''2''"
    by code_simp+
  from CheckSchema_report [of example_env "''broken.lp.sql''"
      "''failed to parse SQL DDL: failed to parse SQL: syntax error at end of input''" dup_schema]
    CheckSchema_report [of example_env "''dup.lp.sql''"
      "''failed to parse SQL DDL: failed to parse SQL: syntax error at end of input''" dup_schema]
    b d n e q(3)
  show ?thesis
    by (simp add: m q(1,2) s)
qed

end
